theory Spec2Isabelle
  imports Main "HOL-Library.Word"
begin

unbundle bit_operations_syntax

section \<open>Semantic tokens (semantic\_token.go)\<close>

type_synonym uint32 = "32 word"

text \<open>\<^verbatim>\<open>SemanticTokenModifiers.Value\<close>: the bitwise OR of all modifiers, 0 for the empty list.\<close>

definition Value :: "uint32 list \<Rightarrow> uint32" where
  "Value ms = (if length ms = 0 then 0 else fold (\<lambda>v val. val OR v) ms 0)"

record SemanticToken =
  Line :: uint32
  Start :: uint32
  Len :: uint32
  Raw :: string
  Type :: uint32
  Modifiers :: "uint32 list"

text \<open>The zero value of the struct, the initial \<^verbatim>\<open>var last SemanticToken\<close>.\<close>

definition zeroSemanticToken :: SemanticToken where
  "zeroSemanticToken = \<lparr>Line = 0, Start = 0, Len = 0, Raw = [], Type = 0, Modifiers = []\<rparr>"

text \<open>
  The loop of \<^verbatim>\<open>EncodeSemanticTokens\<close>. \<open>j\<close> is the write index into the output
  (five per token) and \<open>last_tok\<close> the token of the previous iteration. All arithmetic is
  on \<^verbatim>\<open>uint32\<close> and wraps.
\<close>

fun encode_loop :: "nat \<Rightarrow> SemanticToken \<Rightarrow> SemanticToken list \<Rightarrow> uint32 list" where
  "encode_loop j last_tok [] = []"
| "encode_loop j last_tok (item # toks) =
     (let xj = (if j = 0 then Line item else Line item - Line last_tok);
          xj1 = (if j > 0 \<and> xj = 0 then Start item - Start last_tok else Start item)
      in [xj, xj1, Len item, Type item, Value (Modifiers item)]
         @ encode_loop (j + 5) item toks)"

definition EncodeSemanticTokens :: "SemanticToken list \<Rightarrow> uint32 list" where
  "EncodeSemanticTokens toks = encode_loop 0 zeroSemanticToken toks"

text \<open>
  The decoder is not part of the server; it is the reading side of the LSP integer
  encoding, written after its description: the first token is absolute, every later
  token carries a line delta, and a start delta only when the line delta is zero.
  It computes on unbounded naturals, as a client does.
\<close>

type_synonym decoded_token = "nat \<times> nat \<times> nat \<times> nat \<times> nat"

fun decode_rest :: "nat \<Rightarrow> nat \<Rightarrow> nat list \<Rightarrow> decoded_token list" where
  "decode_rest pl ps (dl # ds # len # ty # md # rest) =
     (let l = pl + dl; s = (if dl = 0 then ps + ds else ds)
      in (l, s, len, ty, md) # decode_rest l s rest)"
| "decode_rest pl ps _ = []"

fun DecodeSemanticTokens :: "nat list \<Rightarrow> decoded_token list" where
  "DecodeSemanticTokens (l # s # len # ty # md # rest) = (l, s, len, ty, md) # decode_rest l s rest"
| "DecodeSemanticTokens _ = []"

definition token_tuple :: "SemanticToken \<Rightarrow> decoded_token" where
  "token_tuple t = (unat (Line t), unat (Start t), unat (Len t), unat (Type t), unat (Value (Modifiers t)))"

text \<open>Ascending order by (line, start), as unsigned numbers.\<close>

definition token_le :: "SemanticToken \<Rightarrow> SemanticToken \<Rightarrow> bool" where
  "token_le a b \<longleftrightarrow> Line a < Line b \<or> (Line a = Line b \<and> Start a \<le> Start b)"

definition sorted_tokens :: "SemanticToken list \<Rightarrow> bool" where
  "sorted_tokens toks = sorted_wrt token_le toks"

text \<open>Three tokens on two lines, used to exercise the encoder.\<close>

definition example_tokens :: "SemanticToken list" where
  "example_tokens =
     [\<lparr>Line = 0, Start = 0, Len = 7, Raw = ''message'', Type = 10, Modifiers = []\<rparr>,
      \<lparr>Line = 0, Start = 8, Len = 3, Raw = ''Foo'', Type = 3, Modifiers = [1]\<rparr>,
      \<lparr>Line = 2, Start = 4, Len = 6, Raw = ''option'', Type = 14, Modifiers = [1, 2]\<rparr>]"

section \<open>Positions and AST nodes (parser/position.go)\<close>

text \<open>
  \<^verbatim>\<open>protocol.Position\<close> holds two \<^verbatim>\<open>uint32\<close>, zero-based. \<^verbatim>\<open>ast.SourcePos\<close>
  holds Go \<^verbatim>\<open>int\<close>s, one-based; they are modelled as mathematical integers (a 64-bit
  \<^verbatim>\<open>int\<close> does not overflow on line and column numbers of a file held in memory).
\<close>

record Position =
  pLine :: uint32
  Character :: uint32

record SourcePos =
  sLine :: int
  Col :: int

text \<open>
  The syntax tree comes from the external parser. A node is kept with what the server
  reads from it: its identity, its kind with the name of a package or import node, and
  its \<^verbatim>\<open>NodeInfo\<close> span. A \<^verbatim>\<open>FileNode\<close> is represented by the sequence of its nodes in
  the order in which \<^verbatim>\<open>ast.Walk\<close> visits them.
\<close>

datatype NodeKind = PackageNode string | ImportNode string | OtherNode

record Node =
  node_id :: nat
  kind :: NodeKind
  nStart :: SourcePos
  nEnd :: SourcePos

type_synonym FileNode = "Node list"

definition NewOneBasePosition :: "Position \<Rightarrow> Position" where
  "NewOneBasePosition pos = pos\<lparr>pLine := pLine pos + 1, Character := Character pos + 1\<rparr>"

definition NewZeroBaseSourcePos :: "SourcePos \<Rightarrow> SourcePos" where
  "NewZeroBaseSourcePos pos =
     (if Col pos > 0 \<and> sLine pos > 0 then pos\<lparr>sLine := sLine pos - 1, Col := Col pos - 1\<rparr> else pos)"

text \<open>\<^verbatim>\<open>ToPosition\<close> converts with \<^verbatim>\<open>uint32(...)\<close>, which truncates.\<close>

definition ToPosition :: "SourcePos \<Rightarrow> Position" where
  "ToPosition pos = \<lparr>pLine = word_of_int (sLine pos), Character = word_of_int (Col pos)\<rparr>"

definition PositionWithinNode :: "Node \<Rightarrow> Position \<Rightarrow> bool" where
  "PositionWithinNode ni zpos =
     (let pos = NewOneBasePosition zpos; start = nStart ni; end = nEnd ni
      in if sLine start = sLine end \<and> sLine start = uint (pLine pos)
         then Col start \<le> uint (Character pos) \<and> Col end \<ge> uint (Character pos)
         else sLine start \<le> uint (pLine pos) \<and> sLine end \<ge> uint (pLine pos))"

definition PositionNodeLen :: "Node \<Rightarrow> Position \<Rightarrow> int \<times> int" where
  "PositionNodeLen ni zpos =
     (if \<not> PositionWithinNode ni zpos then (-1, -1)
      else let pos = NewOneBasePosition zpos; start = nStart ni; end = nEnd ni
           in if sLine start = sLine end
              then (0, (uint (Character pos) - Col start) + (Col end - uint (Character pos)))
              else ((uint (pLine pos) - sLine start) + (sLine end - uint (pLine pos)), -1))"

section \<open>Errors and file handles (file/file.go)\<close>

text \<open>
  Go errors are values; \<^verbatim>\<open>fmt.Errorf("...: %w", err)\<close> wraps one. A panic is kept as
  an error value of its own, so that it is a branch of the model.
\<close>

datatype error =
    ErrNotExist
  | ErrUnParseFile
  | ErrInvalidSource
  | ErrInvalidURI string string
  | Error string
  | Wrap string error
  | Panic string

type_synonym int32 = "32 word"

text \<open>
  The \<^verbatim>\<open>Handle\<close> interface: \<^verbatim>\<open>URI()\<close>, \<^verbatim>\<open>Version()\<close> and \<^verbatim>\<open>Content()\<close>. A handle is
  modelled by the three values it answers with at the time it is read; \<^verbatim>\<open>int32\<close>
  versions are 32-bit words compared as signed numbers.
\<close>

record Handle =
  hURI :: string
  hVersion :: int32
  hContent :: "error + string"

section \<open>Diagnostic sink\<close>

record Range =
  rStart :: Position
  rEnd :: Position

record Diagnostic =
  dRange :: Range
  Severity :: nat
  Message :: string
  Source :: string

text \<open>
  The LSP client is external. It is modelled by the list of \<^verbatim>\<open>publishDiagnostics\<close>
  notifications it has been sent, oldest first, and by the error it answers with. The
  diagnostics of a notification are the values of a Go map collected in iteration order,
  which is unspecified: they are kept as a set.
\<close>

record PublishDiagnosticsParams =
  pURI :: string
  Diagnostics :: "Diagnostic set"

record Client =
  published :: "PublishDiagnosticsParams list"
  publish_error :: "PublishDiagnosticsParams \<Rightarrow> error option"

record DiagnosticClient =
  client :: Client
  cache :: "string \<rightharpoonup> (Range \<rightharpoonup> Diagnostic)"

definition PublishDiagnostics :: "Client \<Rightarrow> PublishDiagnosticsParams \<Rightarrow> Client \<times> error option" where
  "PublishDiagnostics c params = (c\<lparr>published := published c @ [params]\<rparr>, publish_error c params)"

text \<open>The loop \<^verbatim>\<open>for _, d := range ds { dmap[d.Range] = d }\<close>.\<close>

fun add_loop :: "Diagnostic list \<Rightarrow> (Range \<rightharpoonup> Diagnostic) \<Rightarrow> (Range \<rightharpoonup> Diagnostic)" where
  "add_loop [] dmap = dmap"
| "add_loop (dg # ds) dmap = add_loop ds (dmap(dRange dg \<mapsto> dg))"

definition AddDiagnostics :: "DiagnosticClient \<Rightarrow> Handle \<Rightarrow> Diagnostic list \<Rightarrow> DiagnosticClient" where
  "AddDiagnostics d f ds =
     (let uri = hURI f;
          dmap = (case cache d uri of None \<Rightarrow> Map.empty | Some m \<Rightarrow> m);
          dmap' = add_loop ds dmap
      in d\<lparr>cache := (cache d)(uri \<mapsto> dmap')\<rparr>)"

definition Notify :: "DiagnosticClient \<Rightarrow> Handle \<Rightarrow> DiagnosticClient \<times> error option" where
  "Notify d f =
     (let uri = hURI f;
          dmap = (case cache d uri of None \<Rightarrow> Map.empty | Some m \<Rightarrow> m);
          ds = ran dmap;
          (c, err) = PublishDiagnostics (client d) \<lparr>pURI = uri, Diagnostics = ds\<rparr>
      in (d\<lparr>client := c\<rparr>,
          case err of None \<Rightarrow> None | Some e \<Rightarrow> Some (Wrap ''client publish diagnostics'' e)))"

definition Reset :: "DiagnosticClient \<Rightarrow> Handle \<Rightarrow> DiagnosticClient" where
  "Reset d f = d\<lparr>cache := (cache d)(hURI f := None)\<rparr>"

text \<open>
  The call sequence of the replacement property, on one handle:
  \<^verbatim>\<open>Reset; Add(S1); Notify; Reset; Add(S2); Notify\<close>.
\<close>

definition replace_sequence :: "DiagnosticClient \<Rightarrow> Handle \<Rightarrow> Diagnostic list \<Rightarrow> Diagnostic list \<Rightarrow> DiagnosticClient" where
  "replace_sequence d f S1 S2 =
     (let d1 = Reset d f;
          d2 = AddDiagnostics d1 f S1;
          d3 = fst (Notify d2 f);
          d4 = Reset d3 f;
          d5 = AddDiagnostics d4 f S2
      in fst (Notify d5 f))"

text \<open>
  A list of diagnostics deduplicated by range, the last entry of each range winning:
  an entry is dropped when a later one has the same range.
\<close>

fun dedup_last :: "Diagnostic list \<Rightarrow> Diagnostic list" where
  "dedup_last [] = []"
| "dedup_last (dg # ds) =
     (if \<exists>e \<in> set ds. dRange e = dRange dg then dedup_last ds else dg # dedup_last ds)"

text \<open>A sink that has sent nothing, a handle and diagnostics to exercise the sequence.\<close>

definition example_sink :: DiagnosticClient where
  "example_sink = \<lparr>client = \<lparr>published = [], publish_error = (\<lambda>_. None)\<rparr>, cache = Map.empty\<rparr>"

definition example_handle :: Handle where
  "example_handle = \<lparr>hURI = ''file:///w/a.proto'', hVersion = 1, hContent = Inr ''message Foo {}''\<rparr>"

definition example_diag :: "uint32 \<Rightarrow> string \<Rightarrow> Diagnostic" where
  "example_diag l msg =
     \<lparr>dRange = \<lparr>rStart = \<lparr>pLine = l, Character = 0\<rparr>, rEnd = \<lparr>pLine = l, Character = 5\<rparr>\<rparr>,
      Severity = 1, Message = msg, Source = ''buf-lsp''\<rparr>"

section \<open>The Go library functions the URI code calls\<close>

text \<open>
  \<^verbatim>\<open>file/uri.go\<close> and \<^verbatim>\<open>file/overlay.go\<close> are thin layers over \<^verbatim>\<open>strings\<close>,
  \<^verbatim>\<open>path/filepath\<close>, \<^verbatim>\<open>net/url\<close> and \<^verbatim>\<open>go.lsp.dev/uri\<close>. These are not part of the
  repository; this section models them on a POSIX host (separator \<^verbatim>\<open>/\<close>, no volume names), following
  the library sources. What depends on the process or is validated elsewhere is a field
  of \<open>Host\<close>: the working directory (\<^verbatim>\<open>os.Getwd\<close>, which may fail), \<^verbatim>\<open>runtime.GOROOT()\<close>
  and the check \<^verbatim>\<open>net/url\<close> makes on the authority part of a URL.
\<close>

record Host =
  cwd :: "string option"
  GOROOT :: string
  valid_authority :: "string \<Rightarrow> bool"

subsection \<open>strings\<close>

definition HasPrefix :: "string \<Rightarrow> string \<Rightarrow> bool" where
  "HasPrefix s p = (take (length p) s = p)"

fun Contains :: "string \<Rightarrow> string \<Rightarrow> bool" where
  "Contains [] substr = (substr = [])"
| "Contains (c # s) substr = (HasPrefix (c # s) substr \<or> Contains s substr)"

text \<open>\<^verbatim>\<open>strings.EqualFold\<close> on ASCII letters (bytes above 127 are compared as they are).\<close>

definition lower :: "char \<Rightarrow> char" where
  "lower c = (if 65 \<le> (of_char c :: nat) \<and> (of_char c :: nat) \<le> 90 then char_of (of_char c + 32 :: nat) else c)"

definition EqualFold :: "string \<Rightarrow> string \<Rightarrow> bool" where
  "EqualFold s t = (map lower s = map lower t)"

subsection \<open>path/filepath\<close>

definition IsAbs :: "string \<Rightarrow> bool" where
  "IsAbs path = HasPrefix path ''/''"

text \<open>The elements of a path between separators, empty ones included.\<close>

fun split_loop :: "string \<Rightarrow> string \<Rightarrow> string list" where
  "split_loop [] acc = [rev acc]"
| "split_loop (c # cs) acc =
     (if c = CHR ''/'' then rev acc # split_loop cs [] else split_loop cs (c # acc))"

definition Split :: "string \<Rightarrow> string list" where
  "Split s = split_loop s []"

fun join_sep :: "string list \<Rightarrow> string" where
  "join_sep [] = []"
| "join_sep [e] = e"
| "join_sep (e # es) = e @ ''/'' @ join_sep es"

text \<open>
  \<^verbatim>\<open>filepath.Clean\<close>. \<open>out\<close> is the output buffer as a stack of elements, top first.
  An empty or \<^verbatim>\<open>.\<close> element is skipped; \<^verbatim>\<open>..\<close> removes the last element when there
  is one to remove, is kept in a path that is not rooted, and is dropped at the root.
\<close>

fun clean_elems :: "bool \<Rightarrow> string list \<Rightarrow> string list \<Rightarrow> string list" where
  "clean_elems rooted [] out = rev out"
| "clean_elems rooted (e # es) out =
     (if e = [] \<or> e = ''.'' then clean_elems rooted es out
      else if e = ''..'' then
        (case out of
           x # xs \<Rightarrow> if x \<noteq> ''..'' then clean_elems rooted es xs
                     else if rooted then clean_elems rooted es out
                     else clean_elems rooted es (''..'' # out)
         | [] \<Rightarrow> if rooted then clean_elems rooted es out
                 else clean_elems rooted es (''..'' # out))
      else clean_elems rooted es (e # out))"

definition Clean :: "string \<Rightarrow> string" where
  "Clean path =
     (if path = [] then ''.''
      else let rooted = IsAbs path;
               s = join_sep (clean_elems rooted (Split path) [])
           in if rooted then ''/'' @ s else if s = [] then ''.'' else s)"

text \<open>\<^verbatim>\<open>filepath.Join\<close> of two elements.\<close>

definition Join :: "string \<Rightarrow> string \<Rightarrow> string" where
  "Join a b =
     (if a \<noteq> [] then Clean (a @ ''/'' @ b)
      else if b \<noteq> [] then Clean b
      else [])"

text \<open>\<^verbatim>\<open>filepath.Abs\<close>: the error of \<^verbatim>\<open>os.Getwd\<close> is passed on.\<close>

definition Abs :: "Host \<Rightarrow> string \<Rightarrow> string option" where
  "Abs H path =
     (if IsAbs path then Some (Clean path)
      else case cwd H of None \<Rightarrow> None | Some wd \<Rightarrow> Some (Join wd path))"

text \<open>
  \<^verbatim>\<open>filepath.Rel\<close>. Both paths are cleaned and compared element by element. It fails
  when exactly one of them is rooted, or when the first element at which they differ is
  \<^verbatim>\<open>..\<close> in the base; otherwise it climbs out of what is left of the base and
  descends into what is left of the target. \<open>None\<close> is the error.
\<close>

fun strip_common :: "string list \<Rightarrow> string list \<Rightarrow> string list \<times> string list" where
  "strip_common (b # bs) (t # ts) = (if b = t then strip_common bs ts else (b # bs, t # ts))"
| "strip_common bs ts = (bs, ts)"

definition path_elems :: "string \<Rightarrow> string list" where
  "path_elems p = filter (\<lambda>e. e \<noteq> []) (Split p)"

definition Rel :: "string \<Rightarrow> string \<Rightarrow> string option" where
  "Rel basepath targpath =
     (let base = Clean basepath; targ = Clean targpath
      in if targ = base then Some ''.''
         else let base' = (if base = ''.'' then [] else base)
              in if IsAbs base' \<noteq> IsAbs targ then None
                 else case strip_common (path_elems base') (path_elems targ) of
                        (rb, rt) \<Rightarrow>
                          if rb \<noteq> [] \<and> rt \<noteq> [] \<and> hd rb = ''..'' then None
                          else Some (join_sep (replicate (length rb) ''..'' @ rt)))"

subsection \<open>net/url\<close>

definition ishex :: "char \<Rightarrow> bool" where
  "ishex c = (c \<in> set ''0123456789abcdefABCDEF'')"

definition unhex :: "char \<Rightarrow> nat" where
  "unhex c =
     (let n = (of_char c :: nat)
      in if 48 \<le> n \<and> n \<le> 57 then n - 48
         else if 97 \<le> n \<and> n \<le> 102 then n - 97 + 10
         else if 65 \<le> n \<and> n \<le> 70 then n - 65 + 10
         else 0)"

definition upperhex :: "nat \<Rightarrow> char" where
  "upperhex n = ''0123456789ABCDEF'' ! n"

text \<open>
  \<^verbatim>\<open>url.PathUnescape\<close>: every \<^verbatim>\<open>%\<close> must be followed by two hex digits, or the whole
  call fails; otherwise each triple is replaced by its byte.
\<close>

fun PathUnescape :: "string \<Rightarrow> string option" where
  "PathUnescape [] = Some []"
| "PathUnescape (c # s) =
     (if c = CHR ''%'' then
        (case s of
           a # b # rest \<Rightarrow>
             if ishex a \<and> ishex b
             then map_option (\<lambda>t. char_of (16 * unhex a + unhex b) # t) (PathUnescape rest)
             else None
         | _ \<Rightarrow> None)
      else map_option (\<lambda>t. c # t) (PathUnescape s))"

text \<open>\<^verbatim>\<open>shouldEscape\<close> and \<^verbatim>\<open>escape\<close> in the mode \<^verbatim>\<open>encodePath\<close>.\<close>

definition shouldEscape :: "char \<Rightarrow> bool" where
  "shouldEscape c =
     (let n = (of_char c :: nat)
      in if (97 \<le> n \<and> n \<le> 122) \<or> (65 \<le> n \<and> n \<le> 90) \<or> (48 \<le> n \<and> n \<le> 57) then False
         else if c \<in> set ''-_.~'' then False
         else if c \<in> set ''$&+,/:;=?@'' then c = CHR ''?''
         else True)"

fun escape :: "string \<Rightarrow> string" where
  "escape [] = []"
| "escape (c # s) =
     (if shouldEscape c
      then CHR ''%'' # upperhex (of_char c div 16) # upperhex (of_char c mod 16) # escape s
      else c # escape s)"

text \<open>\<^verbatim>\<open>url.URL{Scheme: "file", Path: path}.String()\<close>.\<close>

definition file_URL_String :: "string \<Rightarrow> string" where
  "file_URL_String path =
     ''file:'' @ (if path \<noteq> [] then ''//'' else []) @ (if path = ''*'' then ''*'' else escape path)"

text \<open>A path element: a string without separator.\<close>

definition no_sep :: "string \<Rightarrow> bool" where
  "no_sep e = (CHR ''/'' \<notin> set e)"

subsection \<open>go.lsp.dev/uri\<close>

definition FileScheme :: string where
  "FileScheme = ''file''"

text \<open>\<^verbatim>\<open>unicode.IsLetter\<close> on one byte read as a Latin-1 code point.\<close>

definition IsLetter :: "char \<Rightarrow> bool" where
  "IsLetter c =
     (let n = (of_char c :: nat)
      in (65 \<le> n \<and> n \<le> 90) \<or> (97 \<le> n \<and> n \<le> 122) \<or> n = 170 \<or> n = 181 \<or> n = 186
         \<or> (192 \<le> n \<and> n \<le> 214) \<or> (216 \<le> n \<and> n \<le> 246) \<or> (248 \<le> n \<and> n \<le> 255))"

definition isWindowsDrivePath :: "string \<Rightarrow> bool" where
  "isWindowsDrivePath path = (\<not> length path < 4 \<and> IsLetter (path ! 0) \<and> path ! 1 = CHR '':'')"

definition isWindowsDriveURI :: "string \<Rightarrow> bool" where
  "isWindowsDriveURI u =
     (\<not> length u < 4 \<and> u ! 0 = CHR ''/'' \<and> IsLetter (u ! 1) \<and> u ! 2 = CHR '':'')"

text \<open>\<^verbatim>\<open>uri.File\<close>: make the path absolute and print it as a file URL.\<close>

definition File :: "Host \<Rightarrow> string \<Rightarrow> string" where
  "File H path =
     (let path1 = (if length path \<ge> 7 \<and> EqualFold ''$GOROOT'' (take 7 path)
                   then GOROOT H @ drop 7 path else path);
          path2 = (if \<not> isWindowsDrivePath path1
                   then (case Abs H path1 of Some a \<Rightarrow> a | None \<Rightarrow> path1) else path1);
          path3 = (if isWindowsDrivePath path2 then ''/'' @ path2 else path2)
      in file_URL_String path3)"

text \<open>
  \<^verbatim>\<open>uri.New\<close>: the string is percent-decoded once when it decodes at all; a string
  that then starts with \<^verbatim>\<open>file://\<close> is returned, anything else goes through \<^verbatim>\<open>uri.File\<close>.
\<close>

definition New :: "Host \<Rightarrow> string \<Rightarrow> string" where
  "New H s =
     (let s' = (case PathUnescape s of Some u \<Rightarrow> u | None \<Rightarrow> s)
      in if HasPrefix s' (FileScheme @ ''://'') then s' else File H s')"

text \<open>
  \<^verbatim>\<open>url.ParseRequestURI\<close>, as far as \<^verbatim>\<open>URI.Filename\<close> reads its result: the scheme
  (in lower case) and the decoded path. \<open>None\<close> is the error.
\<close>

definition stringContainsCTLByte :: "string \<Rightarrow> bool" where
  "stringContainsCTLByte s = (\<exists>c \<in> set s. (of_char c :: nat) < 32 \<or> (of_char c :: nat) = 127)"

definition is_alpha :: "char \<Rightarrow> bool" where
  "is_alpha c = (let n = (of_char c :: nat) in (97 \<le> n \<and> n \<le> 122) \<or> (65 \<le> n \<and> n \<le> 90))"

definition is_digit :: "char \<Rightarrow> bool" where
  "is_digit c = (let n = (of_char c :: nat) in 48 \<le> n \<and> n \<le> 57)"

text \<open>\<^verbatim>\<open>getScheme\<close>: \<open>acc\<close> holds the bytes read so far, \<open>None\<close> is "missing protocol scheme".\<close>

fun getScheme_loop :: "string \<Rightarrow> string \<Rightarrow> string \<Rightarrow> (string \<times> string) option" where
  "getScheme_loop rawURL acc [] = Some ([], rawURL)"
| "getScheme_loop rawURL acc (c # cs) =
     (if is_alpha c then getScheme_loop rawURL (acc @ [c]) cs
      else if is_digit c \<or> c \<in> set ''+-.'' then
        (if acc = [] then Some ([], rawURL) else getScheme_loop rawURL (acc @ [c]) cs)
      else if c = CHR '':'' then (if acc = [] then None else Some (acc, cs))
      else Some ([], rawURL))"

definition getScheme :: "string \<Rightarrow> (string \<times> string) option" where
  "getScheme rawURL = getScheme_loop rawURL [] rawURL"

definition ParseRequestURI :: "Host \<Rightarrow> string \<Rightarrow> (string \<times> string) option" where
  "ParseRequestURI H rawURL =
     (if stringContainsCTLByte rawURL then None
      else if rawURL = [] then None
      else if rawURL = ''*'' then Some ([], ''*'')
      else case getScheme rawURL of
             None \<Rightarrow> None
           | Some (scheme0, rest0) \<Rightarrow>
               let scheme = map lower scheme0;
                   rest = takeWhile (\<lambda>c. c \<noteq> CHR ''?'') rest0
               in if \<not> HasPrefix rest ''/'' then (if scheme \<noteq> [] then Some (scheme, []) else None)
                  else if scheme \<noteq> [] \<and> HasPrefix rest ''//'' then
                    (let authority = takeWhile (\<lambda>c. c \<noteq> CHR ''/'') (drop 2 rest);
                         rest' = dropWhile (\<lambda>c. c \<noteq> CHR ''/'') (drop 2 rest)
                     in if \<not> valid_authority H authority then None
                        else map_option (\<lambda>p. (scheme, p)) (PathUnescape rest'))
                  else map_option (\<lambda>p. (scheme, p)) (PathUnescape rest))"

text \<open>\<^verbatim>\<open>URI.Filename\<close> panics when the URI does not parse or is not a file URI.\<close>

definition Filename :: "Host \<Rightarrow> string \<Rightarrow> error + string" where
  "Filename H u =
     (case ParseRequestURI H u of
        None \<Rightarrow> Inl (Panic ''failed to parse request URI'')
      | Some (scheme, path) \<Rightarrow>
          if scheme \<noteq> FileScheme then Inl (Panic ''only file URIs are supported'')
          else Inr (if isWindowsDriveURI path then drop 1 path else path))"

section \<open>URI normalizer (file/uri.go)\<close>

definition URI2Filename :: "Host \<Rightarrow> string \<Rightarrow> error + string" where
  "URI2Filename H u = (if HasPrefix u FileScheme then Filename H u else Inr u)"

definition NormalURIStr :: "Host \<Rightarrow> string \<Rightarrow> string" where
  "NormalURIStr H u =
     (if HasPrefix u FileScheme then New H u
      else if IsAbs u then New H (file_URL_String u)
      else u)"

definition NormalURI :: "Host \<Rightarrow> string \<Rightarrow> string" where
  "NormalURI H u = NormalURIStr H u"

definition IsDocumentURI :: "Host \<Rightarrow> string \<Rightarrow> error + bool" where
  "IsDocumentURI H u =
     (if HasPrefix u FileScheme
      then (case Filename H u of Inl e \<Rightarrow> Inl e | Inr name \<Rightarrow> Inr (IsAbs name))
      else Inr False)"

definition URI2Relative :: "Host \<Rightarrow> string \<Rightarrow> string \<Rightarrow> error + string" where
  "URI2Relative H u base =
     (case URI2Filename H u of
        Inl e \<Rightarrow> Inl e
      | Inr filename \<Rightarrow>
          if \<not> IsAbs filename then Inr filename
          else case Rel base filename of
                 None \<Rightarrow> Inl (Error ''Rel: can not make relative'')
               | Some rel \<Rightarrow> Inr (New H rel))"

text \<open>A host whose working directory is \<^verbatim>\<open>/srv\<close>; it accepts the empty authority only.\<close>

definition posix_host :: Host where
  "posix_host = \<lparr>cwd = Some ''/srv'', GOROOT = ''/usr/local/go'', valid_authority = (\<lambda>a. a = [])\<rparr>"

section \<open>Overlays and sources (file/overlay.go, file\_multi\_source.go, file\_filesystem.go)\<close>

record Overlay =
  oroot :: string
  ouri :: string
  ocontent :: string
  oversion :: int32

definition NewOverlay :: "string \<Rightarrow> string \<Rightarrow> int32 \<Rightarrow> Overlay" where
  "NewOverlay u c v = \<lparr>oroot = [], ouri = u, ocontent = c, oversion = v\<rparr>"

definition Change :: "Overlay \<Rightarrow> string \<Rightarrow> int32 \<Rightarrow> Overlay" where
  "Change ov c v = ov\<lparr>ocontent := c, oversion := v\<rparr>"

text \<open>An overlay is a \<^verbatim>\<open>Handle\<close>: its URI, its version and its content, never an error.\<close>

definition overlay_handle :: "Overlay \<Rightarrow> Handle" where
  "overlay_handle ov = \<lparr>hURI = ouri ov, hVersion = oversion ov, hContent = Inr (ocontent ov)\<rparr>"

text \<open>
  \<^verbatim>\<open>storage.ObjectInfo\<close> as the server reads it: \<^verbatim>\<open>Path()\<close> and \<^verbatim>\<open>LocalPath()\<close>. An
  overlay is one too and computes both from its URI when asked; the error of
  \<^verbatim>\<open>filepath.Rel\<close> in \<^verbatim>\<open>Overlay.Path\<close> is dropped and leaves the empty string.
\<close>

datatype ObjectInfo = StoredInfo string string | OverlayInfo Overlay

definition Overlay_Path :: "Host \<Rightarrow> Overlay \<Rightarrow> error + string" where
  "Overlay_Path H ov =
     (case Filename H (ouri ov) of
        Inl e \<Rightarrow> Inl e
      | Inr name \<Rightarrow> Inr (case Rel (oroot ov) name of None \<Rightarrow> [] | Some rel \<Rightarrow> rel))"

definition Overlay_LocalPath :: "Host \<Rightarrow> Overlay \<Rightarrow> error + string" where
  "Overlay_LocalPath H ov = Filename H (ouri ov)"

fun Path :: "Host \<Rightarrow> ObjectInfo \<Rightarrow> error + string" where
  "Path H (StoredInfo p lp) = Inr p"
| "Path H (OverlayInfo ov) = Overlay_Path H ov"

fun LocalPath :: "Host \<Rightarrow> ObjectInfo \<Rightarrow> error + string" where
  "LocalPath H (StoredInfo p lp) = Inr lp"
| "LocalPath H (OverlayInfo ov) = Overlay_LocalPath H ov"

text \<open>
  The \<^verbatim>\<open>Source\<close> interface has four implementations. \<^verbatim>\<open>diskSource\<close> and \<^verbatim>\<open>modSource\<close>
  are read-through caches over storage outside the server (the disk, a module); a
  \<open>LowerSource\<close> stands for either and is given by what it answers to \<^verbatim>\<open>ReadFile\<close> and
  \<^verbatim>\<open>Stat\<close>. \<^verbatim>\<open>OverlayFS\<close> and \<^verbatim>\<open>MultiSource\<close> are modelled in full.
\<close>

datatype Source =
    LowerSource "string \<Rightarrow> error + Handle" "string \<Rightarrow> error + ObjectInfo"
  | OverlaySource OverlayFS
  | MultiSource "Source list"
and OverlayFS =
    OverlayFS (fs_root: string) (delegate: Source) (overlays: "string \<rightharpoonup> Overlay")

definition NewOverlayFS :: "string \<Rightarrow> Source \<Rightarrow> OverlayFS" where
  "NewOverlayFS root d = OverlayFS root d Map.empty"

definition is_panic :: "error \<Rightarrow> bool" where
  "is_panic e = (case e of Panic m \<Rightarrow> True | _ \<Rightarrow> False)"

definition checkURI :: "Host \<Rightarrow> OverlayFS \<Rightarrow> string \<Rightarrow> error + string" where
  "checkURI H fs u =
     (case IsDocumentURI H u of
        Inl e \<Rightarrow> Inl e
      | Inr isdoc \<Rightarrow> if \<not> isdoc then Inr (NormalURIStr H (Join (fs_root fs) u)) else Inr u)"

text \<open>
  \<^verbatim>\<open>ReadFile\<close> and \<^verbatim>\<open>Stat\<close> of the three kinds of source. A \<^verbatim>\<open>MultiSource\<close> asks
  its sources in order and returns the first answer without error; a panic is not an
  error value in Go and passes through.
\<close>

fun Source_ReadFile :: "Host \<Rightarrow> Source \<Rightarrow> string \<Rightarrow> error + Handle"
and OverlayFS_ReadFile :: "Host \<Rightarrow> OverlayFS \<Rightarrow> string \<Rightarrow> error + Handle"
and MultiSource_ReadFile :: "Host \<Rightarrow> Source list \<Rightarrow> string \<Rightarrow> error + Handle" where
  "Source_ReadFile H (LowerSource rd st) uri = rd uri"
| "Source_ReadFile H (OverlaySource fs) uri = OverlayFS_ReadFile H fs uri"
| "Source_ReadFile H (MultiSource ss) uri = MultiSource_ReadFile H ss uri"
| "OverlayFS_ReadFile H (OverlayFS root d ovs) uri =
     (case checkURI H (OverlayFS root d ovs) uri of
        Inl e \<Rightarrow> Inl e
      | Inr uri' \<Rightarrow>
          (case ovs uri' of
             Some overlay \<Rightarrow> Inr (overlay_handle overlay)
           | None \<Rightarrow> Source_ReadFile H d uri'))"
| "MultiSource_ReadFile H [] uri = Inl ErrNotExist"
| "MultiSource_ReadFile H (s # ss) uri =
     (case Source_ReadFile H s uri of
        Inl e \<Rightarrow> if is_panic e then Inl e else MultiSource_ReadFile H ss uri
      | Inr h \<Rightarrow> Inr h)"

definition OverlayFS_Stat :: "Host \<Rightarrow> OverlayFS \<Rightarrow> string \<Rightarrow> error + ObjectInfo" where
  "OverlayFS_Stat H fs uri =
     (case checkURI H fs uri of
        Inl e \<Rightarrow> Inl e
      | Inr uri' \<Rightarrow>
          (case overlays fs uri' of
             Some ol \<Rightarrow> Inr (OverlayInfo ol)
           | None \<Rightarrow> Inl ErrNotExist))"

fun Source_Stat :: "Host \<Rightarrow> Source \<Rightarrow> string \<Rightarrow> error + ObjectInfo"
and MultiSource_Stat :: "Host \<Rightarrow> Source list \<Rightarrow> string \<Rightarrow> error + ObjectInfo" where
  "Source_Stat H (LowerSource rd st) uri = st uri"
| "Source_Stat H (OverlaySource fs) uri = OverlayFS_Stat H fs uri"
| "Source_Stat H (MultiSource ss) uri = MultiSource_Stat H ss uri"
| "MultiSource_Stat H [] uri = Inl ErrNotExist"
| "MultiSource_Stat H (s # ss) uri =
     (case Source_Stat H s uri of
        Inl e \<Rightarrow> if is_panic e then Inl e else MultiSource_Stat H ss uri
      | Inr info \<Rightarrow> Inr info)"

definition OverlayFS_Get :: "Host \<Rightarrow> OverlayFS \<Rightarrow> string \<Rightarrow> error + Overlay" where
  "OverlayFS_Get H fs uri =
     (if uri = [] then Inl (Error ''empty DocumentURI'')
      else case checkURI H fs uri of
             Inl e \<Rightarrow> Inl e
           | Inr uri' \<Rightarrow>
               (case overlays fs uri' of Some oo \<Rightarrow> Inr oo | None \<Rightarrow> Inl ErrNotExist))"

text \<open>
  \<^verbatim>\<open>OverlayFS.Open\<close> returns the stored overlay, and the file system with its map
  updated. An overlay already stored under the URI is changed in place and keeps its
  own URI and root.
\<close>

definition OverlayFS_Open :: "Host \<Rightarrow> OverlayFS \<Rightarrow> Overlay \<Rightarrow> error + (OverlayFS \<times> Overlay)" where
  "OverlayFS_Open H fs ov =
     (if ouri ov = [] then Inl (Error ''empty DocumentURI'')
      else case IsDocumentURI H (ouri ov) of
        Inl e \<Rightarrow> Inl e
      | Inr isdoc \<Rightarrow>
          (case (if isdoc
                 then (case Filename H (ouri ov) of
                         Inl e \<Rightarrow> Inl e
                       | Inr name \<Rightarrow>
                           (case Rel (fs_root fs) name of
                              None \<Rightarrow> Inl (Error ''overlay fs not include this file'')
                            | Some rel \<Rightarrow> Inr ()))
                 else Inr ()) of
             Inl e \<Rightarrow> Inl e
           | Inr _ \<Rightarrow>
               (case checkURI H fs (ouri ov) of
                  Inl e \<Rightarrow> Inl e
                | Inr u \<Rightarrow>
                    let ov' = ov\<lparr>ouri := u, oroot := fs_root fs\<rparr>
                    in (case overlays fs u of
                          Some oo \<Rightarrow>
                            let oo' = Change oo (ocontent ov') (oversion ov')
                            in Inr (OverlayFS (fs_root fs) (delegate fs) ((overlays fs)(u \<mapsto> oo')), oo')
                        | None \<Rightarrow>
                            Inr (OverlayFS (fs_root fs) (delegate fs) ((overlays fs)(u \<mapsto> ov')), ov')))))"

text \<open>\<^verbatim>\<open>Close\<close>: an \<^verbatim>\<open>OverlayFS\<close> deletes the overlay and leaves its delegate alone.\<close>

definition OverlayFS_Close :: "Host \<Rightarrow> OverlayFS \<Rightarrow> string \<Rightarrow> error + OverlayFS" where
  "OverlayFS_Close H fs uri =
     (case checkURI H fs uri of
        Inl e \<Rightarrow> Inl e
      | Inr uri' \<Rightarrow> Inr (OverlayFS (fs_root fs) (delegate fs) ((overlays fs)(uri' := None))))"

text \<open>\<^verbatim>\<open>NewMultiSource\<close> flattens the \<^verbatim>\<open>MultiSource\<close>s among its arguments, one level.\<close>

fun Sources :: "Source \<Rightarrow> Source list" where
  "Sources (MultiSource ss) = ss"
| "Sources s = [s]"

definition NewMultiSource :: "Source list \<Rightarrow> Source" where
  "NewMultiSource sources = MultiSource (concat (map Sources sources))"

record folder =
  Name :: string
  fURI :: string
  overlayfs :: OverlayFS
  modssource :: Source

definition Souce :: "folder \<Rightarrow> Source" where
  "Souce f = NewMultiSource [OverlaySource (overlayfs f), modssource f]"

text \<open>The \<^verbatim>\<open>filesystem\<close> facade holds the folders; the rest of the struct is logging and set-up.\<close>

type_synonym filesystem = "folder list"

definition filesystem_Source :: "filesystem \<Rightarrow> Source" where
  "filesystem_Source fs = NewMultiSource (map Souce fs)"

text \<open>\<^verbatim>\<open>filesystem.Open\<close>: the first folder whose \<^verbatim>\<open>OverlayFS\<close> accepts the overlay takes it.\<close>

fun filesystem_Open :: "Host \<Rightarrow> filesystem \<Rightarrow> Overlay \<Rightarrow> error + (filesystem \<times> Handle)" where
  "filesystem_Open H [] overlay = Inl ErrNotExist"
| "filesystem_Open H (f # fs) overlay =
     (case OverlayFS_Open H (overlayfs f) overlay of
        Inl e \<Rightarrow>
          if is_panic e then Inl e
          else (case filesystem_Open H fs overlay of
                  Inl e' \<Rightarrow> Inl e'
                | Inr (fs', h) \<Rightarrow> Inr (f # fs', h))
      | Inr (ofs', oo) \<Rightarrow> Inr (f\<lparr>overlayfs := ofs'\<rparr> # fs, overlay_handle oo))"

section \<open>Parsed files (parser/file.go, parser/reporter.go, parser/package.go)\<close>

text \<open>
  The Protobuf parser and compiler are external. \<open>Env\<close> holds them as functions of what
  they read; each answers with its value, with the kind of error it returns
  (\<^verbatim>\<open>reporter.ErrInvalidSource\<close> is tolerated by the callers, any other error is not)
  and with the errors and warnings it hands to the reporter on the way. The compiler
  resolves imports through the file system of the server, so it is a function of that
  too. \<^verbatim>\<open>parser.Result\<close>, \<^verbatim>\<open>linker.File\<close> and \<^verbatim>\<open>linker.Symbols\<close> are opaque to the
  server and are kept as tokens.
\<close>

datatype ExtError = NoError | InvalidSource | OtherError string

record Report =
  warning :: bool
  eStart :: SourcePos
  eEnd :: SourcePos
  eMsg :: string

type_synonym Result = nat
type_synonym LinkerFile = nat
type_synonym Symbols = nat

record ParseOutcome =
  parsed :: FileNode
  perr :: ExtError
  preports :: "Report list"

record ResultOutcome =
  result :: Result
  rerr :: ExtError
  rreports :: "Report list"

record CompileOutcome =
  compiled0 :: "LinkerFile option"
  csymbols :: Symbols
  cerr :: ExtError
  creports :: "Report list"

record Env =
  host :: Host
  parser_Parse :: "string \<Rightarrow> string \<Rightarrow> ParseOutcome"
  parser_ResultFromAST :: "FileNode \<Rightarrow> ResultOutcome"
  compiler_Compile :: "filesystem \<Rightarrow> string \<Rightarrow> CompileOutcome"

text \<open>
  The reporter of a file: \<^verbatim>\<open>noopReporter\<close> drops everything, a \<^verbatim>\<open>fileReporter\<close> turns
  each error or warning into one diagnostic and adds it to the sink under the handle
  it was created with.
\<close>

datatype Reporter = noopReporter | fileReporter Handle

definition source :: string where
  "source = ''buf-lsp''"

definition report_diagnostic :: "Report \<Rightarrow> Diagnostic" where
  "report_diagnostic r =
     \<lparr>dRange = \<lparr>rStart = ToPosition (NewZeroBaseSourcePos (eStart r)),
                 rEnd = ToPosition (NewZeroBaseSourcePos (eEnd r))\<rparr>,
      Severity = (if warning r then 2 else 1),
      Message = eMsg r,
      Source = source\<rparr>"

fun report_all :: "Reporter \<Rightarrow> DiagnosticClient \<Rightarrow> Report list \<Rightarrow> DiagnosticClient" where
  "report_all rpt dc [] = dc"
| "report_all noopReporter dc (r # rs) = report_all noopReporter dc rs"
| "report_all (fileReporter h) dc (r # rs) =
     report_all (fileReporter h) (AddDiagnostics dc h [report_diagnostic r]) rs"

definition FileInitVersion :: int32 where
  "FileInitVersion = - 2"

definition descriptorPath :: string where
  "descriptorPath = ''google/protobuf/descriptor.proto''"

record File =
  handle :: "Handle option"
  reporter :: Reporter
  symbols :: "Symbols option"
  linkerfile :: "LinkerFile option"
  uri :: string
  content :: "string option"
  version :: int32
  fn :: "FileNode option"
  res :: "Result option"
  pkg :: "Node option"
  importNodes :: "Node list"

definition newFile :: "Host \<Rightarrow> string \<Rightarrow> Handle \<Rightarrow> Reporter \<Rightarrow> error + File" where
  "newFile H u h rpt =
     (case URI2Filename H u of
        Inl e \<Rightarrow> Inl e
      | Inr name \<Rightarrow>
          Inr \<lparr>handle = Some h,
               reporter = (if Contains name descriptorPath then noopReporter else rpt),
               symbols = None, linkerfile = None,
               uri = u, content = None, version = FileInitVersion,
               fn = None, res = None, pkg = None, importNodes = []\<rparr>)"

definition reset :: "File \<Rightarrow> Handle option \<Rightarrow> File" where
  "reset f h =
     (let f1 = (case h of Some h' \<Rightarrow> f\<lparr>handle := Some h'\<rparr> | None \<Rightarrow> f)
      in f1\<lparr>content := None, version := FileInitVersion,
             fn := None, res := None, pkg := None, importNodes := []\<rparr>)"

definition ResetWithHandle :: "File \<Rightarrow> Handle option \<Rightarrow> File" where
  "ResetWithHandle f h = reset f h"

text \<open>
  \<^verbatim>\<open>needReParse\<close> reads the version of the handle without a nil check; \<^verbatim>\<open>File.Parse\<close>
  has made that check before it calls.
\<close>

definition needReParse :: "File \<Rightarrow> error + bool" where
  "needReParse f =
     (if fn f = None then Inr True
      else case handle f of
             None \<Rightarrow> Inl (Panic ''nil pointer dereference'')
           | Some h \<Rightarrow> Inr (sint (version f) < sint (hVersion h)))"

text \<open>
  The walk at the end of \<^verbatim>\<open>File.Parse\<close>: every package node overwrites \<^verbatim>\<open>pkg\<close>, every
  import node is appended to \<^verbatim>\<open>imports\<close>.
\<close>

fun visit :: "Node list \<Rightarrow> File \<Rightarrow> File" where
  "visit [] f = f"
| "visit (n # ns) f =
     (case kind n of
        PackageNode name \<Rightarrow> visit ns (f\<lparr>pkg := Some n\<rparr>)
      | ImportNode name \<Rightarrow> visit ns (f\<lparr>importNodes := importNodes f @ [n]\<rparr>)
      | OtherNode \<Rightarrow> visit ns f)"

text \<open>
  \<^verbatim>\<open>File.Parse\<close> returns its error, the file and the sink. The fields of the file are
  written only after both parser calls have passed.
\<close>

definition File_Parse :: "Env \<Rightarrow> File \<Rightarrow> DiagnosticClient \<Rightarrow> error option \<times> File \<times> DiagnosticClient" where
  "File_Parse E f dc =
     (case handle f of
        None \<Rightarrow> (Some (Error ''nil file handle''), f, dc)
      | Some h \<Rightarrow>
          (case needReParse f of
             Inl e \<Rightarrow> (Some e, f, dc)
           | Inr need \<Rightarrow>
               if \<not> need then (None, f, dc)
               else (case hContent h of
                  Inl err \<Rightarrow> (Some (Wrap ''file content'' err), f, dc)
                | Inr c \<Rightarrow>
                    (case URI2Filename (host E) (uri f) of
                       Inl e \<Rightarrow> (Some e, f, dc)
                     | Inr name \<Rightarrow>
                         let po = parser_Parse E name c;
                             dc1 = report_all (reporter f) dc (preports po)
                         in (case perr po of
                               OtherError m \<Rightarrow> (Some (Wrap ''proto compile parse'' (Error m)), f, dc1)
                             | _ \<Rightarrow>
                                 let ro = parser_ResultFromAST E (parsed po);
                                     dc2 = report_all (reporter f) dc1 (rreports ro)
                                 in (case rerr ro of
                                       OtherError m \<Rightarrow>
                                         (Some (Wrap ''proto compile result from ast'' (Error m)), f, dc2)
                                     | _ \<Rightarrow>
                                         (None,
                                          visit (parsed po)
                                            (f\<lparr>content := Some c, version := hVersion h,
                                               fn := Some (parsed po), res := Some (result ro)\<rparr>),
                                          dc2)))))))"

definition File_Compile :: "Env \<Rightarrow> filesystem \<Rightarrow> File \<Rightarrow> DiagnosticClient \<Rightarrow> error option \<times> File \<times> DiagnosticClient" where
  "File_Compile E fsys f dc =
     (case URI2Filename (host E) (uri f) of
        Inl e \<Rightarrow> (Some e, f\<lparr>symbols := Some 0\<rparr>, dc)
      | Inr name \<Rightarrow>
          let co = compiler_Compile E fsys name;
              f1 = f\<lparr>symbols := Some (csymbols co)\<rparr>;
              dc1 = report_all (reporter f) dc (creports co)
          in (case cerr co of
                OtherError m \<Rightarrow> (Some (Wrap ''compile'' (Error m)), f1, dc1)
              | _ \<Rightarrow>
                  (case compiled0 co of
                     None \<Rightarrow> (Some (Error ''no compiled files''), f1, dc1)
                   | Some lf \<Rightarrow> (None, f1\<lparr>linkerfile := Some lf\<rparr>, dc1))))"

definition PackageName :: "File \<Rightarrow> string" where
  "PackageName f =
     (case pkg f of
        None \<Rightarrow> []
      | Some n \<Rightarrow> (case kind n of PackageNode name \<Rightarrow> name | _ \<Rightarrow> []))"

definition import_name :: "Node \<Rightarrow> string" where
  "import_name n = (case kind n of ImportNode name \<Rightarrow> name | _ \<Rightarrow> [])"

definition Imports :: "Host \<Rightarrow> File \<Rightarrow> string list" where
  "Imports H f = map (\<lambda>im. NormalURIStr H (import_name im)) (importNodes f)"

text \<open>
  \<^verbatim>\<open>Walk\<close> fails on a file without syntax tree; \<^verbatim>\<open>NodesAt\<close> ignores that error and
  returns the nodes visited so far, none.
\<close>

definition NodesAt :: "File \<Rightarrow> Position \<Rightarrow> Node list" where
  "NodesAt f pos =
     (case fn f of
        None \<Rightarrow> []
      | Some nodes \<Rightarrow> filter (\<lambda>n. PositionWithinNode n pos) nodes)"

text \<open>
  The body of the loop in \<^verbatim>\<open>Nearest\<close>, on the triple \<^verbatim>\<open>nearest\<close>, \<^verbatim>\<open>nearestline\<close>,
  \<^verbatim>\<open>nearestcol\<close>. The deferred function assigns when \<^verbatim>\<open>assign\<close> has been set.
\<close>

definition nearest_step :: "Position \<Rightarrow> Node \<Rightarrow> Node option \<times> int \<times> int \<Rightarrow> Node option \<times> int \<times> int" where
  "nearest_step pos n st =
     (case st of (nearest, nearestline, nearestcol) \<Rightarrow>
        if \<not> PositionWithinNode n pos then st
        else case PositionNodeLen n pos of (linelen, collen) \<Rightarrow>
          let assign =
                (if nearest = None then True
                 else if linelen > nearestline then False
                 else if linelen < nearestline then True
                 else collen < nearestcol)
          in if assign then (Some n, linelen, collen) else st)"

definition Nearest :: "File \<Rightarrow> Position \<Rightarrow> Node option" where
  "Nearest f pos =
     (if fn f = None then None
      else let ns = NodesAt f pos
           in if length ns = 0 then None
              else fst (fold (nearest_step pos) ns (None, - 1, - 1)))"

text \<open>
  A package holds pointers to the files of the cache under their URIs. The cache never
  drops a file and never replaces one, so the set of URIs stands for the map.
\<close>

type_synonym Package = "string set"

record Parser =
  files :: "string \<rightharpoonup> File"
  pkgs :: "string \<rightharpoonup> Package"

definition NewParser :: Parser where
  "NewParser = \<lparr>files = Map.empty, pkgs = Map.empty\<rparr>"

definition pkgremove :: "Parser \<Rightarrow> File \<Rightarrow> Parser" where
  "pkgremove p f =
     (let pkgn = PackageName f
      in case pkgs p pkgn of
           Some pk \<Rightarrow> p\<lparr>pkgs := (pkgs p)(pkgn \<mapsto> pk - {uri f})\<rparr>
         | None \<Rightarrow> p)"

definition pkgadd :: "Parser \<Rightarrow> File \<Rightarrow> Parser" where
  "pkgadd p f =
     (let pkgn = PackageName f;
          pk = (case pkgs p pkgn of Some pk \<Rightarrow> pk | None \<Rightarrow> {})
      in p\<lparr>pkgs := (pkgs p)(pkgn \<mapsto> insert (uri f) pk)\<rparr>)"

definition wrap :: "string \<Rightarrow> error \<Rightarrow> error" where
  "wrap msg e = (if is_panic e then e else Wrap msg e)"

text \<open>
  The first block of \<^verbatim>\<open>Parser.Parse\<close>: a file already in the cache is reset with the
  new handle and taken out of its package, which is looked up by the package name of the
  file after the reset; otherwise a new file is made, at \<^verbatim>\<open>FileInitVersion\<close>, and stored.
\<close>

definition lookup_or_create :: "Env \<Rightarrow> Parser \<Rightarrow> string \<Rightarrow> Handle \<Rightarrow> error + (File \<times> Parser)" where
  "lookup_or_create E p u h =
     (case files p u of
        Some f0 \<Rightarrow>
          let f1 = ResetWithHandle f0 (Some h)
          in Inr (f1, pkgremove (p\<lparr>files := (files p)(u \<mapsto> f1)\<rparr>) f1)
      | None \<Rightarrow>
          (case newFile (host E) u h (fileReporter h) of
             Inl e \<Rightarrow> Inl e
           | Inr f1 \<Rightarrow> Inr (f1, p\<lparr>files := (files p)(u \<mapsto> f1)\<rparr>)))"

text \<open>
  \<^verbatim>\<open>Parser.Parse\<close>: after that block \<^verbatim>\<open>File.Parse\<close> and \<^verbatim>\<open>File.Compile\<close> run on the
  file. An error of \<^verbatim>\<open>Compile\<close> is logged and dropped. The result is the error or the
  file, with the cache and the sink as they are left.
\<close>

definition Parser_Parse ::
  "Env \<Rightarrow> filesystem \<Rightarrow> Parser \<Rightarrow> DiagnosticClient \<Rightarrow> string \<Rightarrow> Handle
     \<Rightarrow> (error + File) \<times> Parser \<times> DiagnosticClient" where
  "Parser_Parse E fsys p dc u h =
     (case lookup_or_create E p u h of
        Inl e \<Rightarrow> (Inl e, p, dc)
      | Inr (f1, p1) \<Rightarrow>
          (case File_Parse E f1 dc of
             (Some e, f2, dc1) \<Rightarrow> (Inl (wrap ''file parse'' e), p1\<lparr>files := (files p1)(u \<mapsto> f2)\<rparr>, dc1)
           | (None, f2, dc1) \<Rightarrow>
               (case File_Compile E fsys f2 dc1 of
                  (cerror, f3, dc2) \<Rightarrow>
                    let p2 = p1\<lparr>files := (files p1)(u \<mapsto> f3)\<rparr>
                    in (case cerror of
                          Some e \<Rightarrow>
                            if is_panic e then (Inl e, p2, dc2) else (Inr f3, pkgadd p2 f3, dc2)
                        | None \<Rightarrow> (Inr f3, pkgadd p2 f3, dc2)))))"

text \<open>
  The order in which \<^verbatim>\<open>Nearest\<close> compares the pairs of \<^verbatim>\<open>PositionNodeLen\<close>: a smaller
  line span, or the same line span and a smaller column span.
\<close>

definition span_less :: "int \<times> int \<Rightarrow> int \<times> int \<Rightarrow> bool" where
  "span_less a b \<longleftrightarrow> fst a < fst b \<or> (fst a = fst b \<and> snd a < snd b)"

text \<open>A message over lines 1 to 11 with a field on line 6, as the parser numbers them.\<close>

definition example_file :: File where
  "example_file =
     \<lparr>handle = Some example_handle, reporter = noopReporter, symbols = None, linkerfile = None,
      uri = ''a.proto'', content = Some ''message Foo {}'', version = 1,
      fn = Some [\<lparr>node_id = 0, kind = OtherNode, nStart = \<lparr>sLine = 1, Col = 1\<rparr>, nEnd = \<lparr>sLine = 11, Col = 2\<rparr>\<rparr>,
                 \<lparr>node_id = 1, kind = OtherNode, nStart = \<lparr>sLine = 6, Col = 3\<rparr>, nEnd = \<lparr>sLine = 6, Col = 20\<rparr>\<rparr>,
                 \<lparr>node_id = 2, kind = OtherNode, nStart = \<lparr>sLine = 6, Col = 3\<rparr>, nEnd = \<lparr>sLine = 6, Col = 9\<rparr>\<rparr>,
                 \<lparr>node_id = 3, kind = OtherNode, nStart = \<lparr>sLine = 6, Col = 4\<rparr>, nEnd = \<lparr>sLine = 6, Col = 10\<rparr>\<rparr>,
                 \<lparr>node_id = 4, kind = OtherNode, nStart = \<lparr>sLine = 8, Col = 3\<rparr>, nEnd = \<lparr>sLine = 8, Col = 9\<rparr>\<rparr>],
      res = Some 0, pkg = None, importNodes = []\<rparr>"

definition example_position :: Position where
  "example_position = \<lparr>pLine = 5, Character = 4\<rparr>"

text \<open>What a reader of the cache sees of the file under a URI.\<close>

definition cached_version :: "Parser \<Rightarrow> string \<Rightarrow> int32 option" where
  "cached_version p u = map_option version (files p u)"

definition cached_content :: "Parser \<Rightarrow> string \<Rightarrow> string option" where
  "cached_content p u = (case files p u of None \<Rightarrow> None | Some f \<Rightarrow> content f)"

definition cached_has_ast :: "Parser \<Rightarrow> string \<Rightarrow> bool" where
  "cached_has_ast p u = (case files p u of None \<Rightarrow> False | Some f \<Rightarrow> fn f \<noteq> None)"

text \<open>
  A sequence of \<^verbatim>\<open>Parse\<close> calls on one URI, one handle per call: for each call, whether
  it returned a file, and the version of the cached file read after the call.
\<close>

fun Parse_sequence ::
  "Env \<Rightarrow> filesystem \<Rightarrow> Parser \<Rightarrow> DiagnosticClient \<Rightarrow> string \<Rightarrow> Handle list \<Rightarrow> (bool \<times> int32 option) list" where
  "Parse_sequence E fsys p dc u [] = []"
| "Parse_sequence E fsys p dc u (h # hs) =
     (case Parser_Parse E fsys p dc u h of
        (r, p', dc') \<Rightarrow> (\<not> isl r, cached_version p' u) # Parse_sequence E fsys p' dc' u hs)"

text \<open>
  What a call is expected to leave: the version of its handle when it returned a file;
  when it returned an error, a file at \<^verbatim>\<open>FileInitVersion\<close>, or no file at all.
\<close>

definition observed_ok :: "bool \<times> int32 option \<Rightarrow> Handle \<Rightarrow> bool" where
  "observed_ok obs h =
     (if fst obs then snd obs = Some (hVersion h)
      else snd obs = None \<or> snd obs = Some FileInitVersion)"

text \<open>
  What the callers of the parser tolerate, \<^verbatim>\<open>err == nil || errors.Is(err, reporter.ErrInvalidSource)\<close>,
  and the names of the import nodes of a syntax tree in visit order.
\<close>

definition tolerated :: "ExtError \<Rightarrow> bool" where
  "tolerated e = (case e of OtherError m \<Rightarrow> False | _ \<Rightarrow> True)"

definition import_names :: "FileNode \<Rightarrow> string list" where
  "import_names ast = concat (map (\<lambda>n. case kind n of ImportNode name \<Rightarrow> [name] | _ \<Rightarrow> []) ast)"

text \<open>
  The external parser accepts the text \<open>c\<close> of the file \<open>name\<close> (possibly with syntax
  errors reported) and finds the imports \<open>names\<close> in it.
\<close>

definition parses_with_imports :: "Env \<Rightarrow> string \<Rightarrow> string \<Rightarrow> string list \<Rightarrow> bool" where
  "parses_with_imports E name c names =
     (let po = parser_Parse E name c
      in tolerated (perr po) \<and> tolerated (rerr (parser_ResultFromAST E (parsed po))) \<and>
         import_names (parsed po) = names)"

section \<open>File manager and change notifications\<close>

record fileManager =
  fs :: filesystem
  parser :: Parser
  diagnosticClient :: DiagnosticClient

text \<open>
  A \<^verbatim>\<open>fileHandle\<close> points to a file of the parser cache; the pointer is the key of the
  file in the cache.
\<close>

record fileHandle =
  fh_handle :: Handle
  parsedFile :: string

text \<open>
  \<^verbatim>\<open>ReadFile\<close> and \<^verbatim>\<open>internalparse\<close> call each other through the loop over the
  imports of the parsed file, with nothing that bounds the depth. The first argument
  bounds it in the model: it is the number of nested \<^verbatim>\<open>ReadFile\<close> calls still allowed,
  and \<open>None\<close> says that the bound was hit, so a call returns when some bound gives
  \<open>Some\<close>. A result is the state left behind with the error or the value returned.
\<close>

fun ReadFile :: "nat \<Rightarrow> Env \<Rightarrow> fileManager \<Rightarrow> string \<Rightarrow> (fileManager \<times> (error + fileHandle)) option"
and internalparse :: "nat \<Rightarrow> Env \<Rightarrow> fileManager \<Rightarrow> ObjectInfo \<Rightarrow> Handle \<Rightarrow> (fileManager \<times> (error + fileHandle)) option"
and read_imports :: "nat \<Rightarrow> Env \<Rightarrow> fileManager \<Rightarrow> string list \<Rightarrow> (fileManager \<times> error option) option" where
  "ReadFile 0 E fm u = None"
| "ReadFile (Suc n) E fm u =
     (case Source_Stat (host E) (filesystem_Source (fs fm)) u of
        Inl e \<Rightarrow> Some (fm, Inl (wrap ''fs stat file'' e))
      | Inr stat \<Rightarrow>
          (case Source_ReadFile (host E) (filesystem_Source (fs fm)) u of
             Inl e \<Rightarrow> Some (fm, Inl (wrap ''fs read file'' e))
           | Inr fh \<Rightarrow> internalparse n E fm stat fh))"
| "internalparse n E fm stat h =
     (let dc1 = Reset (diagnosticClient fm) h
      in case Path (host E) stat of
           Inl e \<Rightarrow> Some (fm\<lparr>diagnosticClient := dc1\<rparr>, Inl e)
         | Inr path \<Rightarrow>
             (case Parser_Parse E (fs fm) (parser fm) dc1 (NormalURIStr (host E) path) h of
                (Inl e, p', dc2) \<Rightarrow>
                  Some (fm\<lparr>parser := p', diagnosticClient := dc2\<rparr>, Inl (wrap ''parser parse file'' e))
              | (Inr pf, p', dc2) \<Rightarrow>
                  let dc3 = fst (Notify dc2 h);
                      fm' = fm\<lparr>parser := p', diagnosticClient := dc3\<rparr>
                  in (case read_imports n E fm' (Imports (host E) pf) of
                        None \<Rightarrow> None
                      | Some (fm'', Some e) \<Rightarrow> Some (fm'', Inl e)
                      | Some (fm'', None) \<Rightarrow>
                          Some (fm'', Inr \<lparr>fh_handle = h, parsedFile = uri pf\<rparr>))))"
| "read_imports n E fm [] = Some (fm, None)"
| "read_imports n E fm (imp # imps) =
     (case ReadFile n E fm imp of
        None \<Rightarrow> None
      | Some (fm', Inl e) \<Rightarrow> Some (fm', Some e)
      | Some (fm', Inr _) \<Rightarrow> read_imports n E fm' imps)"

definition fileManager_Open :: "nat \<Rightarrow> Env \<Rightarrow> fileManager \<Rightarrow> Overlay \<Rightarrow> (fileManager \<times> (error + fileHandle)) option" where
  "fileManager_Open n E fm overlay =
     (case filesystem_Open (host E) (fs fm) overlay of
        Inl e \<Rightarrow> Some (fm, Inl (wrap ''fs open'' e))
      | Inr (fs', fh) \<Rightarrow> ReadFile n E (fm\<lparr>fs := fs'\<rparr>) (hURI fh))"

definition fileManager_Change :: "nat \<Rightarrow> Env \<Rightarrow> fileManager \<Rightarrow> Overlay \<Rightarrow> (fileManager \<times> (error + fileHandle)) option" where
  "fileManager_Change n E fm overlay =
     (case filesystem_Open (host E) (fs fm) overlay of
        Inl e \<Rightarrow> Some (fm, Inl (wrap ''fs open'' e))
      | Inr (fs', fh) \<Rightarrow>
          (case Source_Stat (host E) (filesystem_Source fs') (hURI fh) of
             Inl e \<Rightarrow> Some (fm\<lparr>fs := fs'\<rparr>, Inl (wrap ''fs stat file'' e))
           | Inr stat \<Rightarrow> internalparse n E (fm\<lparr>fs := fs'\<rparr>) stat fh))"

text \<open>
  The handlers of \<^verbatim>\<open>textDocument/didOpen\<close> and \<^verbatim>\<open>textDocument/didChange\<close>. The state
  of the server that they touch is the file manager.
\<close>

record TextDocumentItem =
  tdURI :: string
  tdText :: string
  tdVersion :: int32

record DidChangeTextDocumentParams =
  cURI :: string
  cVersion :: int32
  ContentChanges :: "string list"

definition DidOpen :: "nat \<Rightarrow> Env \<Rightarrow> fileManager \<Rightarrow> TextDocumentItem \<Rightarrow> (fileManager \<times> error option) option" where
  "DidOpen n E fm params =
     (let ol = NewOverlay (tdURI params) (tdText params) (tdVersion params)
      in case fileManager_Open n E fm ol of
           None \<Rightarrow> None
         | Some (fm', Inl e) \<Rightarrow> Some (fm', Some (wrap ''file manager open'' e))
         | Some (fm', Inr _) \<Rightarrow> Some (fm', None))"

definition DidChange :: "nat \<Rightarrow> Env \<Rightarrow> fileManager \<Rightarrow> DidChangeTextDocumentParams \<Rightarrow> (fileManager \<times> error option) option" where
  "DidChange n E fm params =
     (if length (ContentChanges params) = 0 then Some (fm, None)
      else let ol = NewOverlay (cURI params) (hd (ContentChanges params)) (cVersion params)
           in case fileManager_Change n E fm ol of
                None \<Rightarrow> None
              | Some (fm', Inl e) \<Rightarrow> Some (fm', Some (wrap ''file manager change'' e))
              | Some (fm', Inr _) \<Rightarrow> Some (fm', None))"

section \<open>An example server\<close>

text \<open>
  One workspace folder rooted at \<^verbatim>\<open>/w\<close> with no modules, a disk without files, and a
  parser that finds one import of \<^verbatim>\<open>a.proto\<close> in the text \<^verbatim>\<open>import a.proto\<close> and no
  import in any other text. The compiler reports nothing.
\<close>

definition example_nodes :: "string \<Rightarrow> FileNode" where
  "example_nodes c =
     (if c = ''import a.proto''
      then [\<lparr>node_id = 0, kind = OtherNode, nStart = \<lparr>sLine = 1, Col = 1\<rparr>, nEnd = \<lparr>sLine = 1, Col = 15\<rparr>\<rparr>,
            \<lparr>node_id = 1, kind = ImportNode ''a.proto'', nStart = \<lparr>sLine = 1, Col = 1\<rparr>, nEnd = \<lparr>sLine = 1, Col = 15\<rparr>\<rparr>]
      else [\<lparr>node_id = 0, kind = OtherNode, nStart = \<lparr>sLine = 1, Col = 1\<rparr>, nEnd = \<lparr>sLine = 1, Col = 1\<rparr>\<rparr>])"

definition example_env :: Env where
  "example_env =
     \<lparr>host = posix_host,
      parser_Parse = (\<lambda>name c. \<lparr>parsed = example_nodes c, perr = NoError, preports = []\<rparr>),
      parser_ResultFromAST = (\<lambda>ast. \<lparr>result = 0, rerr = NoError, rreports = []\<rparr>),
      compiler_Compile = (\<lambda>fsys name. \<lparr>compiled0 = Some 0, csymbols = 0, cerr = NoError, creports = []\<rparr>)\<rparr>"

definition no_source :: Source where
  "no_source = LowerSource (\<lambda>u. Inl ErrNotExist) (\<lambda>u. Inl ErrNotExist)"


definition example_folder :: "Source \<Rightarrow> (string \<rightharpoonup> Overlay) \<Rightarrow> folder" where
  "example_folder d ovs =
     \<lparr>Name = ''w'', fURI = ''file:///w'',
      overlayfs = OverlayFS ''/w'' d ovs,
      modssource = NewMultiSource []\<rparr>"

definition example_manager :: "(string \<rightharpoonup> Overlay) \<Rightarrow> fileManager" where
  "example_manager ovs =
     \<lparr>fs = [example_folder no_source ovs], parser = NewParser, diagnosticClient = example_sink\<rparr>"

definition example_overlay :: "string \<Rightarrow> string \<Rightarrow> int32 \<Rightarrow> Overlay" where
  "example_overlay u c v = \<lparr>oroot = ''/w'', ouri = u, ocontent = c, oversion = v\<rparr>"

text \<open>
  Handles of \<^verbatim>\<open>a.proto\<close>: the editor's buffer at version 5 and at version 3, and the
  file as the disk source hands it out, at version \<open>-1\<close>.
\<close>

definition handle_v5 :: Handle where
  "handle_v5 = \<lparr>hURI = ''file:///w/a.proto'', hVersion = 5, hContent = Inr ''A''\<rparr>"

definition handle_v3 :: Handle where
  "handle_v3 = \<lparr>hURI = ''file:///w/a.proto'', hVersion = 3, hContent = Inr ''B''\<rparr>"

definition handle_disk :: Handle where
  "handle_disk = \<lparr>hURI = ''file:///w/a.proto'', hVersion = - 1, hContent = Inr ''A''\<rparr>"

text \<open>The cache after one \<^verbatim>\<open>Parse\<close> of \<^verbatim>\<open>a.proto\<close> with the handle at version 5.\<close>

definition parsed_v5 :: Parser where
  "parsed_v5 = fst (snd (Parser_Parse example_env [] NewParser example_sink ''a.proto'' handle_v5))"

text \<open>
  The editor has opened \<^verbatim>\<open>file:///w/a.proto\<close> with a text that imports \<^verbatim>\<open>a.proto\<close>,
  the file itself.
\<close>

definition self_import_overlays :: "string \<rightharpoonup> Overlay" where
  "self_import_overlays =
     [''file:///w/a.proto'' \<mapsto> example_overlay ''file:///w/a.proto'' ''import a.proto'' 1]"

definition self_fs :: filesystem where
  "self_fs = [example_folder no_source self_import_overlays]"

text \<open>The cache keeps \<^verbatim>\<open>a.proto\<close> under its own URI, if it has it.\<close>

definition keyed :: "Parser \<Rightarrow> bool" where
  "keyed p = (case files p ''a.proto'' of None \<Rightarrow> True | Some f \<Rightarrow> uri f = ''a.proto'')"

section \<open>The parser cache: what a call of Parse leaves behind\<close>

lemma visit_fields:
  "version (visit ns f) = version f \<and> content (visit ns f) = content f \<and> fn (visit ns f) = fn f \<and>
   handle (visit ns f) = handle f \<and> uri (visit ns f) = uri f \<and> res (visit ns f) = res f"
  by (induction ns arbitrary: f) (auto split: NodeKind.splits)

lemma needReParse_iff:
  "handle f = Some h \<Longrightarrow>
   needReParse f = Inr (fn f = None \<or> sint (version f) < sint (hVersion h))"
  by (auto simp: needReParse_def)

lemma File_Parse_skip:
  "handle f = Some h \<Longrightarrow> fn f \<noteq> None \<Longrightarrow> \<not> sint (version f) < sint (hVersion h) \<Longrightarrow>
   File_Parse E f dc = (None, f, dc)"
  by (auto simp: File_Parse_def needReParse_def)

lemma File_Parse_fresh:
  assumes "File_Parse E f dc = (None, f', dc')" "handle f = Some h" "fn f = None"
  shows "\<exists>c name. hContent h = Inr c \<and> URI2Filename (host E) (uri f) = Inr name \<and>
           version f' = hVersion h \<and> content f' = Some c \<and>
           fn f' = Some (parsed (parser_Parse E name c)) \<and> uri f' = uri f \<and> handle f' = Some h"
  using assms
  by (auto simp: File_Parse_def needReParse_def Let_def visit_fields
           split: sum.splits ExtError.splits)

lemma File_Parse_error:
  assumes "File_Parse E f dc = (Some e, f', dc')"
  shows "f' = f"
  using assms
  by (auto simp: File_Parse_def Let_def split: option.splits sum.splits ExtError.splits if_splits)

lemma File_Compile_fields:
  assumes "File_Compile E fsys f dc = (r, f', dc')"
  shows "version f' = version f \<and> content f' = content f \<and> fn f' = fn f \<and> uri f' = uri f
         \<and> handle f' = handle f \<and> pkg f' = pkg f \<and> importNodes f' = importNodes f"
  using assms
  by (auto simp: File_Compile_def Let_def split: sum.splits ExtError.splits option.splits)

lemma File_Compile_no_panic:
  assumes "File_Compile E fsys f dc = (Some e, f', dc')" "URI2Filename (host E) (uri f) = Inr name"
  shows "\<not> is_panic e"
  using assms
  by (auto simp: File_Compile_def Let_def is_panic_def split: sum.splits ExtError.splits option.splits)

lemma pkgadd_files: "files (pkgadd p f) = files p"
  by (simp add: pkgadd_def Let_def)

lemma pkgremove_files: "files (pkgremove p f) = files p"
  by (simp add: pkgremove_def Let_def split: option.splits)

lemma lookup_or_create_fresh:
  assumes "lookup_or_create E p u h = Inr (f1, p1)"
  shows "handle f1 = Some h \<and> fn f1 = None \<and> version f1 = FileInitVersion \<and> files p1 u = Some f1"
  using assms
  by (auto simp: lookup_or_create_def ResetWithHandle_def reset_def newFile_def Let_def pkgremove_files
           split: option.splits sum.splits)

lemma lookup_or_create_error:
  assumes "lookup_or_create E p u h = Inl e"
  shows "files p u = None"
  using assms
  by (auto simp: lookup_or_create_def Let_def split: option.splits sum.splits)

lemma Parser_Parse_ok:
  assumes "Parser_Parse E fsys p dc u h = (Inr f', p', dc')"
  shows "\<exists>c name. hContent h = Inr c \<and> version f' = hVersion h \<and> content f' = Some c \<and>
           fn f' = Some (parsed (parser_Parse E name c)) \<and> files p' u = Some f'"
proof -
  from assms obtain f1 p1 where l: "lookup_or_create E p u h = Inr (f1, p1)"
    by (auto simp: Parser_Parse_def split: sum.splits)
  from assms l obtain f2 dc1 where fp: "File_Parse E f1 dc = (None, f2, dc1)"
    by (auto simp: Parser_Parse_def split: prod.splits option.splits)
  obtain ce f3 dc2 where fc: "File_Compile E fsys f2 dc1 = (ce, f3, dc2)"
    by (cases "File_Compile E fsys f2 dc1") auto
  from assms l fp fc have r: "f' = f3" "files p' u = Some f3"
    by (auto simp: Parser_Parse_def Let_def pkgadd_files split: option.splits if_splits)
  from lookup_or_create_fresh [OF l] have "handle f1 = Some h" "fn f1 = None" by simp_all
  from File_Parse_fresh [OF fp this] obtain c name where
    "hContent h = Inr c" "version f2 = hVersion h" "content f2 = Some c"
    "fn f2 = Some (parsed (parser_Parse E name c))"
    by blast
  then show ?thesis using r File_Compile_fields [OF fc] by auto
qed

lemma Parser_Parse_error:
  assumes "Parser_Parse E fsys p dc u h = (Inl e, p', dc')"
  shows "cached_version p' u = None \<or> cached_version p' u = Some FileInitVersion"
proof (cases "lookup_or_create E p u h")
  case (Inl e')
  then have "p' = p" using assms by (simp add: Parser_Parse_def)
  then show ?thesis using lookup_or_create_error [OF Inl] by (simp add: cached_version_def)
next
  case (Inr fp)
  then obtain f1 p1 where l: "lookup_or_create E p u h = Inr (f1, p1)" by (cases fp) auto
  note fr = lookup_or_create_fresh [OF l]
  obtain r f2 dc1 where fp: "File_Parse E f1 dc = (r, f2, dc1)"
    by (cases "File_Parse E f1 dc") auto
  show ?thesis
  proof (cases r)
    case (Some e1)
    then have "f2 = f1" using fp File_Parse_error by blast
    then have "files p' u = Some f1" using assms l fp Some
      by (auto simp: Parser_Parse_def)
    then show ?thesis using fr by (simp add: cached_version_def)
  next
    case None
    from fr have "handle f1 = Some h" "fn f1 = None" by simp_all
    from File_Parse_fresh [OF fp [unfolded None] this] obtain name where
      n: "URI2Filename (host E) (uri f2) = Inr name" by auto
    obtain ce f3 dc2 where fc: "File_Compile E fsys f2 dc1 = (ce, f3, dc2)"
      by (cases "File_Compile E fsys f2 dc1") auto
    have "False" using assms l fp None fc File_Compile_no_panic [OF _ n]
      by (auto simp: Parser_Parse_def Let_def split: option.splits if_splits)
    then show ?thesis ..
  qed
qed

text \<open>
  Claim C2 says that \<^verbatim>\<open>Parse(uri, handle)\<close> is skipped, and the cached file left as it
  is, when the file has a syntax tree and a version not below that of the handle. It is
  not: the cache holds \<^verbatim>\<open>a.proto\<close> with a syntax tree at version 5, and a call with a
  handle at version 3 leaves the file at version 3 with the content of that handle.
\<close>

theorem Parse_not_skipped:
  "cached_has_ast parsed_v5 ''a.proto'' \<and>
   cached_version parsed_v5 ''a.proto'' = Some 5 \<and>
   cached_content parsed_v5 ''a.proto'' = Some ''A'' \<and>
   hVersion handle_v3 = 3 \<and>
   cached_version (fst (snd (Parser_Parse example_env [] parsed_v5 example_sink ''a.proto'' handle_v3))) ''a.proto''
     = Some 3 \<and>
   cached_content (fst (snd (Parser_Parse example_env [] parsed_v5 example_sink ''a.proto'' handle_v3))) ''a.proto''
     = Some ''B''"
  by code_simp

text \<open>
  Claim C2, amended. \<^verbatim>\<open>File.Parse\<close> skips when the file has a syntax tree and its
  version is not below that of its handle, and then leaves the file and the sink as they
  are; it parses again if and only if the syntax tree is nil or the version is strictly
  below that of the handle. \<^verbatim>\<open>Parser.Parse(uri, handle)\<close> resets a cached file before it
  calls \<^verbatim>\<open>File.Parse\<close>, so it never skips: whenever it returns a file, the cached file
  has the version and the content of the handle and a syntax tree, whatever was cached.
\<close>

theorem Parse_skip_and_reset:
  "(handle f = Some h \<and> fn f \<noteq> None \<and> \<not> sint (version f) < sint (hVersion h)
      \<longrightarrow> File_Parse E f dc = (None, f, dc)) \<and>
   (handle f = Some h
      \<longrightarrow> needReParse f = Inr (fn f = None \<or> sint (version f) < sint (hVersion h))) \<and>
   (\<not> isl (fst (Parser_Parse E fsys p dc u h'))
      \<longrightarrow> cached_version (fst (snd (Parser_Parse E fsys p dc u h'))) u = Some (hVersion h') \<and>
          Inr (cached_content (fst (snd (Parser_Parse E fsys p dc u h'))) u) = map_sum id Some (hContent h') \<and>
          cached_has_ast (fst (snd (Parser_Parse E fsys p dc u h'))) u)"
proof (intro conjI impI)
  assume "handle f = Some h \<and> fn f \<noteq> None \<and> \<not> sint (version f) < sint (hVersion h)"
  then show "File_Parse E f dc = (None, f, dc)" by (simp add: File_Parse_skip)
next
  assume "handle f = Some h"
  then show "needReParse f = Inr (fn f = None \<or> sint (version f) < sint (hVersion h))"
    by (rule needReParse_iff)
next
  assume ok: "\<not> isl (fst (Parser_Parse E fsys p dc u h'))"
  obtain r p' dc' where R: "Parser_Parse E fsys p dc u h' = (r, p', dc')"
    by (cases "Parser_Parse E fsys p dc u h'") auto
  with ok obtain f' where "r = Inr f'" by (cases r) auto
  with R Parser_Parse_ok obtain c name where
    "hContent h' = Inr c" "version f' = hVersion h'" "content f' = Some c"
    "fn f' = Some (parsed (parser_Parse E name c))" "files p' u = Some f'"
    by blast
  then have "cached_version p' u = Some (hVersion h')"
    "Inr (cached_content p' u) = map_sum id Some (hContent h')"
    "cached_has_ast p' u"
    by (simp_all add: cached_version_def cached_content_def cached_has_ast_def)
  then show "cached_version (fst (snd (Parser_Parse E fsys p dc u h'))) u = Some (hVersion h')"
    "Inr (cached_content (fst (snd (Parser_Parse E fsys p dc u h'))) u) = map_sum id Some (hContent h')"
    "cached_has_ast (fst (snd (Parser_Parse E fsys p dc u h'))) u"
    by (simp_all add: R)
qed

theorem Parse_skip_and_reset_witness:
  "handle example_file = Some example_handle \<and> fn example_file \<noteq> None \<and>
   \<not> sint (version example_file) < sint (hVersion example_handle) \<and>
   File_Parse example_env example_file example_sink = (None, example_file, example_sink) \<and>
   needReParse example_file = Inr False \<and>
   \<not> isl (fst (Parser_Parse example_env [] parsed_v5 example_sink ''a.proto'' handle_v3)) \<and>
   cached_version (fst (snd (Parser_Parse example_env [] parsed_v5 example_sink ''a.proto'' handle_v3))) ''a.proto''
     = Some 3 \<and>
   cached_has_ast (fst (snd (Parser_Parse example_env [] parsed_v5 example_sink ''a.proto'' handle_v3))) ''a.proto''"
proof -
  have a: "handle example_file = Some example_handle \<and> fn example_file \<noteq> None \<and>
      \<not> sint (version example_file) < sint (hVersion example_handle)"
    by (simp add: example_file_def example_handle_def)
  have b: "\<not> isl (fst (Parser_Parse example_env [] parsed_v5 example_sink ''a.proto'' handle_v3))"
    by code_simp
  have v: "hVersion handle_v3 = 3" by (simp add: handle_v3_def)
  show ?thesis
    using a b v
      Parse_skip_and_reset [of example_file example_handle example_env example_sink
        "[]" parsed_v5 "''a.proto''" handle_v3]
    by simp
qed

text \<open>One call of the sequence leaves what \<open>observed_ok\<close> says.\<close>

lemma Parser_Parse_observed:
  assumes "Parser_Parse E fsys p dc u h = (r, p', dc')"
  shows "observed_ok (\<not> isl r, cached_version p' u) h"
proof (cases r)
  case (Inl e)
  then show ?thesis using assms Parser_Parse_error [of E fsys p dc u h e p' dc']
    by (simp add: observed_ok_def)
next
  case (Inr f')
  then show ?thesis using assms Parser_Parse_ok [of E fsys p dc u h f' p' dc']
    by (auto simp: observed_ok_def cached_version_def)
qed

text \<open>
  Claim C3 says that the version of a parsed file never goes down over a sequence of
  \<^verbatim>\<open>Parse\<close> calls. It does: parsed from the editor's buffer at version 5 and then, the
  buffer closed, from the disk handle, whose version is \<open>-1\<close>, the file is at version 5
  after the first call and at \<open>-1\<close> after the second. Both calls return a file.
\<close>

theorem version_goes_down:
  "Parse_sequence example_env [] NewParser example_sink ''a.proto'' [handle_v5, handle_disk]
     = [(True, Some 5), (True, Some (- 1))] \<and>
   sint (- 1 :: int32) < sint (5 :: int32)"
proof -
  have "Parse_sequence example_env [] NewParser example_sink ''a.proto'' [handle_v5, handle_disk]
     = [(True, Some 5), (True, Some (- 1))]"
    by code_simp
  then show ?thesis by simp
qed

text \<open>
  Claim C3, amended. For every sequence of \<^verbatim>\<open>Parse\<close> calls on a URI, with any handles,
  the version observed after a call that returned a file is the version of the handle of
  that call; after a call that returned an error the file is at \<^verbatim>\<open>FileInitVersion\<close>, or
  there is none. So the observed versions follow the versions of the handles, and are
  non-decreasing when those are and every call returns a file.
\<close>

theorem Parse_sequence_versions:
  "list_all2 observed_ok (Parse_sequence E fsys p dc u hs) hs"
proof (induction hs arbitrary: p dc)
  case Nil
  then show ?case by simp
next
  case (Cons h hs)
  obtain r p' dc' where R: "Parser_Parse E fsys p dc u h = (r, p', dc')"
    by (cases "Parser_Parse E fsys p dc u h") auto
  have "observed_ok (\<not> isl r, cached_version p' u) h"
    using R by (rule Parser_Parse_observed)
  then show ?case using R Cons.IH [of p' dc'] by simp
qed

theorem Parse_sequence_versions_witness:
  "list_all2 observed_ok [(True, Some (- 1)), (True, Some 3), (True, Some 5)] [handle_disk, handle_v3, handle_v5] \<and>
   Parse_sequence example_env [] NewParser example_sink ''a.proto'' [handle_disk, handle_v3, handle_v5]
     = [(True, Some (- 1)), (True, Some 3), (True, Some 5)]"
proof -
  have e: "Parse_sequence example_env [] NewParser example_sink ''a.proto'' [handle_disk, handle_v3, handle_v5]
     = [(True, Some (- 1)), (True, Some 3), (True, Some 5)]"
    by code_simp
  show ?thesis
    using e Parse_sequence_versions [of example_env "[]" NewParser example_sink "''a.proto''"
        "[handle_disk, handle_v3, handle_v5]"]
    by simp
qed

section \<open>Reading a file that imports itself\<close>

lemma host_example_env: "host example_env = posix_host"
  by (simp add: example_env_def)

lemma URI2Filename_a: "URI2Filename posix_host ''a.proto'' = Inr ''a.proto''"
  by code_simp

lemma Contains_a: "\<not> Contains ''a.proto'' descriptorPath"
  by code_simp

lemma NormalURIStr_a: "NormalURIStr posix_host ''a.proto'' = ''a.proto''"
  by code_simp

lemma IsDocumentURI_doc_a: "IsDocumentURI posix_host ''file:///w/a.proto'' = Inr True"
  by code_simp

lemma IsDocumentURI_rel_a: "IsDocumentURI posix_host ''a.proto'' = Inr False"
  by code_simp

lemma Join_w_a: "Join ''/w'' ''a.proto'' = ''/w/a.proto''"
  by code_simp

lemma NormalURIStr_w_a: "NormalURIStr posix_host ''/w/a.proto'' = ''file:///w/a.proto''"
  by code_simp

lemma Filename_doc_a: "Filename posix_host ''file:///w/a.proto'' = Inr ''/w/a.proto''"
  by code_simp

lemma Rel_w_a: "Rel ''/w'' ''/w/a.proto'' = Some ''a.proto''"
  by code_simp

lemma checkURI_doc_a:
  "checkURI posix_host (OverlayFS ''/w'' d ovs) ''file:///w/a.proto'' = Inr ''file:///w/a.proto''"
  by (simp add: checkURI_def IsDocumentURI_doc_a)

lemma checkURI_rel_a:
  "checkURI posix_host (OverlayFS ''/w'' d ovs) ''a.proto'' = Inr ''file:///w/a.proto''"
  by (simp add: checkURI_def IsDocumentURI_rel_a Join_w_a NormalURIStr_w_a)

lemma Path_overlay_a:
  "Overlay_Path posix_host (example_overlay ''file:///w/a.proto'' c v) = Inr ''a.proto''"
  by (simp add: Overlay_Path_def example_overlay_def Filename_doc_a Rel_w_a)

text \<open>
  A folder rooted at \<^verbatim>\<open>/w\<close> whose only overlay is \<^verbatim>\<open>file:///w/a.proto\<close>: both the
  document URI and the import path \<^verbatim>\<open>a.proto\<close> resolve to the overlay, whatever the
  delegate holds.
\<close>

lemma overlay_a_Source:
  "filesystem_Source [example_folder d ovs] = MultiSource [OverlaySource (OverlayFS ''/w'' d ovs)]"
  by (simp add: filesystem_Source_def NewMultiSource_def Souce_def example_folder_def)

lemma overlay_a_Stat:
  "ovs ''file:///w/a.proto'' = Some ov \<Longrightarrow> u = ''a.proto'' \<or> u = ''file:///w/a.proto'' \<Longrightarrow>
   Source_Stat posix_host (filesystem_Source [example_folder d ovs]) u = Inr (OverlayInfo ov)"
  by (auto simp: overlay_a_Source OverlayFS_Stat_def checkURI_doc_a checkURI_rel_a)

lemma overlay_a_ReadFile:
  "ovs ''file:///w/a.proto'' = Some ov \<Longrightarrow> u = ''a.proto'' \<or> u = ''file:///w/a.proto'' \<Longrightarrow>
   Source_ReadFile posix_host (filesystem_Source [example_folder d ovs]) u = Inr (overlay_handle ov)"
  by (auto simp: overlay_a_Source checkURI_doc_a checkURI_rel_a)

lemma lookup_or_create_a:
  assumes "host E = posix_host" "keyed p"
  shows "\<exists>f1 p1. lookup_or_create E p ''a.proto'' h = Inr (f1, p1) \<and> handle f1 = Some h \<and>
     fn f1 = None \<and> importNodes f1 = [] \<and> uri f1 = ''a.proto'' \<and> files p1 ''a.proto'' = Some f1"
  using assms
  by (auto simp: keyed_def lookup_or_create_def ResetWithHandle_def reset_def newFile_def Let_def
        URI2Filename_a pkgremove_files split: option.splits)

lemma visit_import_names:
  "map import_name (importNodes (visit ns f)) = map import_name (importNodes f) @ import_names ns"
  by (induction ns arbitrary: f) (auto simp: import_names_def import_name_def split: NodeKind.splits)

lemma tolerated_cases:
  "tolerated e \<Longrightarrow> (case e of OtherError m \<Rightarrow> x m | _ \<Rightarrow> y) = y"
  by (cases e) (simp_all add: tolerated_def)

lemma File_Parse_a:
  assumes "host E = posix_host" "parses_with_imports E ''a.proto'' c names"
    "handle f1 = Some h" "fn f1 = None" "importNodes f1 = []" "uri f1 = ''a.proto''"
    "hContent h = Inr c"
  shows "\<exists>f2 dc1. File_Parse E f1 dc = (None, f2, dc1) \<and> uri f2 = ''a.proto'' \<and>
     Imports posix_host f2 = map (NormalURIStr posix_host) names"
proof -
  let ?po = "parser_Parse E ''a.proto'' c"
  let ?ro = "parser_ResultFromAST E (parsed ?po)"
  let ?f = "f1\<lparr>content := Some c, version := hVersion h, fn := Some (parsed ?po), res := Some (result ?ro)\<rparr>"
  from assms(2) have t: "tolerated (perr ?po)" "tolerated (rerr ?ro)" "import_names (parsed ?po) = names"
    by (simp_all add: parses_with_imports_def Let_def)
  have "File_Parse E f1 dc
      = (None, visit (parsed ?po) ?f,
         report_all (reporter f1) (report_all (reporter f1) dc (preports ?po)) (rreports ?ro))"
    using assms(1,3-7) t(1,2)
    by (simp add: File_Parse_def needReParse_def URI2Filename_a Let_def tolerated_cases)
  moreover have "uri (visit (parsed ?po) ?f) = ''a.proto''"
    using assms(6) by (simp add: visit_fields)
  moreover have "map import_name (importNodes (visit (parsed ?po) ?f)) = names"
    using assms(5) t(3) by (simp add: visit_import_names)
  then have "Imports posix_host (visit (parsed ?po) ?f) = map (NormalURIStr posix_host) names"
    by (simp add: Imports_def flip: map_map [unfolded comp_def])
  ultimately show ?thesis by blast
qed

text \<open>
  When the parser accepts the text of \<^verbatim>\<open>a.proto\<close>, \<^verbatim>\<open>Parse\<close> returns a file from any
  state of the cache and the sink, whatever the compiler says; its imports are the
  imports the parser has found.
\<close>

lemma Parser_Parse_a:
  assumes "host E = posix_host" "parses_with_imports E ''a.proto'' c names"
    "keyed p" "hContent h = Inr c"
  shows "\<exists>pf p' dc'. Parser_Parse E fsys p dc ''a.proto'' h = (Inr pf, p', dc') \<and>
     keyed p' \<and> Imports posix_host pf = map (NormalURIStr posix_host) names"
proof -
  from lookup_or_create_a [OF assms(1,3)] obtain f1 p1 where
    l: "lookup_or_create E p ''a.proto'' h = Inr (f1, p1)" and
    f1: "handle f1 = Some h" "fn f1 = None" "importNodes f1 = []" "uri f1 = ''a.proto''"
    by blast
  from File_Parse_a [OF assms(1,2) f1 assms(4)] obtain f2 dc1 where
    fp: "File_Parse E f1 dc = (None, f2, dc1)" and f2: "uri f2 = ''a.proto''"
    "Imports posix_host f2 = map (NormalURIStr posix_host) names"
    by blast
  obtain ce f3 dc2 where fc: "File_Compile E fsys f2 dc1 = (ce, f3, dc2)"
    by (cases "File_Compile E fsys f2 dc1") auto
  have f3: "uri f3 = ''a.proto''" "importNodes f3 = importNodes f2"
    using File_Compile_fields [OF fc] f2(1) by simp_all
  have np: "\<And>e. ce = Some e \<Longrightarrow> \<not> is_panic e"
    using File_Compile_no_panic [of E fsys f2 dc1 _ f3 dc2 "''a.proto''"] fc f2(1) assms(1)
    by (simp add: URI2Filename_a)
  have "Parser_Parse E fsys p dc ''a.proto'' h
      = (Inr f3, pkgadd (p1\<lparr>files := (files p1)(''a.proto'' \<mapsto> f3)\<rparr>) f3, dc2)"
    using np by (cases ce) (simp_all add: Parser_Parse_def l fp fc)
  moreover have "keyed (pkgadd (p1\<lparr>files := (files p1)(''a.proto'' \<mapsto> f3)\<rparr>) f3)"
    by (simp add: keyed_def pkgadd_files f3)
  moreover have "Imports posix_host f3 = map (NormalURIStr posix_host) names"
    using f2(2) f3(2) by (simp add: Imports_def)
  ultimately show ?thesis by blast
qed

text \<open>
  The walk on a file that imports itself: whatever the parser and the compiler are, as
  long as the parser accepts the text and finds the import of \<^verbatim>\<open>a.proto\<close> in it, and
  whatever the text, its version, the disk, the cache and the sink are, \<^verbatim>\<open>ReadFile\<close>
  hits the bound.
\<close>

lemma self_import_diverges:
  assumes "host E = posix_host" "parses_with_imports E ''a.proto'' c [''a.proto'']"
    "ovs ''file:///w/a.proto'' = Some (example_overlay ''file:///w/a.proto'' c v)"
  shows "fs fm = [example_folder d ovs] \<Longrightarrow> keyed (parser fm) \<Longrightarrow>
    u = ''a.proto'' \<or> u = ''file:///w/a.proto'' \<Longrightarrow> ReadFile n E fm u = None"
proof (induction n arbitrary: fm u)
  case 0
  then show ?case by simp
next
  case (Suc n)
  let ?ov = "example_overlay ''file:///w/a.proto'' c v"
  let ?h = "overlay_handle ?ov"
  have c: "hContent ?h = Inr c"
    by (simp add: overlay_handle_def example_overlay_def)
  from Parser_Parse_a [OF assms(1,2) Suc.prems(2) c, of "fs fm" "Reset (diagnosticClient fm) ?h"]
  obtain pf p' dc' where
    P: "Parser_Parse E (fs fm) (parser fm) (Reset (diagnosticClient fm) ?h) ''a.proto'' ?h
          = (Inr pf, p', dc')" and
    k: "keyed p'" and i: "Imports posix_host pf = [''a.proto'']"
    by (auto simp: NormalURIStr_a)
  let ?fm' = "fm\<lparr>parser := p', diagnosticClient := fst (Notify dc' ?h)\<rparr>"
  have "ReadFile n E ?fm' ''a.proto'' = None"
    by (rule Suc.IH) (use Suc.prems(1) k in simp_all)
  then have "internalparse n E fm (OverlayInfo ?ov) ?h = None"
    using P i by (simp add: assms(1) Path_overlay_a NormalURIStr_a Let_def)
  moreover have "ReadFile (Suc n) E fm u = internalparse n E fm (OverlayInfo ?ov) ?h"
    using overlay_a_Stat [of ovs ?ov u d] overlay_a_ReadFile [of ovs ?ov u d] assms(3) Suc.prems(3)
    by (simp add: assms(1) Suc.prems(1) del: internalparse.simps)
  ultimately show ?case by (simp del: internalparse.simps)
qed

lemma example_env_self_import:
  "parses_with_imports example_env ''a.proto'' ''import a.proto'' [''a.proto'']"
  by (simp add: parses_with_imports_def example_env_def example_nodes_def tolerated_def import_names_def)

lemma example_env_no_import:
  "parses_with_imports example_env ''a.proto'' ''A'' []"
  by (simp add: parses_with_imports_def example_env_def example_nodes_def tolerated_def import_names_def)

text \<open>
  Claim C1 says that the walk over the imports started by \<^verbatim>\<open>ReadFile\<close> terminates on
  a file that imports itself, a later \<^verbatim>\<open>Parse\<close> of the file being a no-op. It does not:
  \<^verbatim>\<open>Parse\<close> resets the cached file and parses it again, \<^verbatim>\<open>internalparse\<close> reads
  every import of the result, and nothing records the files under way. With
  \<^verbatim>\<open>file:///w/a.proto\<close> open in the editor and importing \<^verbatim>\<open>a.proto\<close>, \<^verbatim>\<open>ReadFile\<close> of
  that URI hits every bound on the depth of the recursion.
\<close>

theorem ReadFile_self_import_never_returns:
  "ReadFile n example_env (example_manager self_import_overlays) ''file:///w/a.proto'' = None"
  by (rule self_import_diverges [OF host_example_env example_env_self_import, of self_import_overlays 1 _ no_source])
     (simp_all add: example_manager_def self_import_overlays_def keyed_def NewParser_def)

text \<open>The same from the notification that opens the file.\<close>

lemma IsDocumentURI_open_a:
  "OverlayFS_Open posix_host (OverlayFS ''/w'' no_source Map.empty)
     (NewOverlay ''file:///w/a.proto'' ''import a.proto'' 1)
     = Inr (OverlayFS ''/w'' no_source self_import_overlays,
            example_overlay ''file:///w/a.proto'' ''import a.proto'' 1)"
  by (simp add: OverlayFS_Open_def NewOverlay_def checkURI_doc_a IsDocumentURI_doc_a Filename_doc_a
      Rel_w_a example_overlay_def self_import_overlays_def Let_def)

lemma DidOpen_self_import_never_returns:
  "DidOpen n example_env (example_manager Map.empty)
     \<lparr>tdURI = ''file:///w/a.proto'', tdText = ''import a.proto'', tdVersion = 1\<rparr> = None"
proof -
  have "filesystem_Open posix_host (fs (example_manager Map.empty))
          (NewOverlay ''file:///w/a.proto'' ''import a.proto'' 1)
        = Inr (self_fs, overlay_handle (example_overlay ''file:///w/a.proto'' ''import a.proto'' 1))"
    by (simp add: example_manager_def example_folder_def IsDocumentURI_open_a self_fs_def)
  moreover have "ReadFile n example_env ((example_manager Map.empty)\<lparr>fs := self_fs\<rparr>) ''file:///w/a.proto'' = None"
    by (rule self_import_diverges [OF host_example_env example_env_self_import, of self_import_overlays 1 _ no_source])
       (simp_all add: example_manager_def self_fs_def self_import_overlays_def keyed_def NewParser_def)
  ultimately show ?thesis
    by (simp add: DidOpen_def fileManager_Open_def host_example_env overlay_handle_def example_overlay_def)
qed

text \<open>A file without imports is read within the first level.\<close>

lemma ReadFile_without_imports_returns:
  "\<exists>r. ReadFile 1 example_env
     (example_manager [''file:///w/a.proto'' \<mapsto> example_overlay ''file:///w/a.proto'' ''A'' 1])
     ''file:///w/a.proto'' = Some r"
proof -
  let ?ov = "example_overlay ''file:///w/a.proto'' ''A'' 1"
  let ?fm = "example_manager [''file:///w/a.proto'' \<mapsto> ?ov]"
  let ?h = "overlay_handle ?ov"
  have src: "filesystem_Source (fs ?fm)
      = MultiSource [OverlaySource (OverlayFS ''/w'' no_source [''file:///w/a.proto'' \<mapsto> ?ov])]"
    by (simp add: example_manager_def overlay_a_Source)
  have c: "hContent ?h = Inr ''A''"
    by (simp add: overlay_handle_def example_overlay_def)
  have k: "keyed (parser ?fm)"
    by (simp add: example_manager_def keyed_def NewParser_def)
  from Parser_Parse_a [OF host_example_env example_env_no_import k c,
      of "fs ?fm" "Reset (diagnosticClient ?fm) ?h"] obtain pf p' dc' where
    P: "Parser_Parse example_env (fs ?fm) (parser ?fm) (Reset (diagnosticClient ?fm) ?h) ''a.proto'' ?h
          = (Inr pf, p', dc')" and i: "Imports posix_host pf = []"
    by auto
  have "\<exists>r. internalparse 0 example_env ?fm (OverlayInfo ?ov) ?h = Some r"
    using P i by (simp add: host_example_env Path_overlay_a NormalURIStr_a Let_def)
  then show ?thesis
    by (simp add: src host_example_env OverlayFS_Stat_def checkURI_doc_a)
qed

section \<open>Overlays shadow the lower sources\<close>








text \<open>An overlay that \<^verbatim>\<open>Open\<close> has accepted is what \<^verbatim>\<open>ReadFile\<close> returns under the URI it was offered with.\<close>

lemma Open_then_ReadFile:
  assumes "OverlayFS_Open H ofs ov = Inr (ofs', oo)"
  shows "OverlayFS_ReadFile H ofs' (ouri ov) = Inr (overlay_handle oo) \<and> ocontent oo = ocontent ov
          \<and> oversion oo = oversion ov"
proof -
  from assms obtain u where c: "checkURI H ofs (ouri ov) = Inr u"
    by (auto simp: OverlayFS_Open_def split: if_splits sum.splits)
  from assms c have o: "overlays ofs' u = Some oo" "fs_root ofs' = fs_root ofs"
    "ocontent oo = ocontent ov" "oversion oo = oversion ov"
    by (auto simp: OverlayFS_Open_def Let_def Change_def split: if_splits sum.splits option.splits)
  have "checkURI H ofs' (ouri ov) = Inr u"
    using c unfolding checkURI_def o(2) .
  then show ?thesis using o by (cases ofs') simp
qed

section \<open>Diagnostic sink: a later round replaces an earlier one\<close>

lemma add_loop_map_add: "add_loop S m = m ++ add_loop S Map.empty"
proof (induction S arbitrary: m)
  case Nil
  then show ?case by simp
next
  case (Cons dg S)
  have "add_loop (dg # S) m = add_loop S (m(dRange dg \<mapsto> dg))"
    by (simp only: add_loop.simps)
  also have "\<dots> = m(dRange dg \<mapsto> dg) ++ add_loop S Map.empty"
    by (rule Cons.IH)
  also have "\<dots> = m ++ ([dRange dg \<mapsto> dg] ++ add_loop S Map.empty)"
    by (auto simp: fun_eq_iff map_add_def split: option.splits)
  also have "[dRange dg \<mapsto> dg] ++ add_loop S Map.empty = add_loop S [dRange dg \<mapsto> dg]"
    by (rule Cons.IH [symmetric])
  also have "add_loop S [dRange dg \<mapsto> dg] = add_loop (dg # S) Map.empty"
    by (simp only: add_loop.simps)
  finally show ?case .
qed

lemma dom_add_loop: "dom (add_loop S m) = dom m \<union> dRange ` set S"
  by (induction S arbitrary: m) auto

text \<open>Started on an empty inner map, the loop keeps the last diagnostic of every range.\<close>

lemma ran_add_loop: "ran (add_loop S Map.empty) = set (dedup_last S)"
proof (induction S)
  case Nil
  then show ?case by simp
next
  case (Cons dg S)
  let ?g = "add_loop S Map.empty"
  have eq: "add_loop (dg # S) Map.empty = [dRange dg \<mapsto> dg] ++ ?g"
    using add_loop_map_add [of S "[dRange dg \<mapsto> dg]"] by (simp only: add_loop.simps)
  have dom: "dom ?g = dRange ` set S" by (simp add: dom_add_loop)
  show ?case
  proof (cases "\<exists>e \<in> set S. dRange e = dRange dg")
    case True
    then obtain e where "e \<in> set S" "dRange e = dRange dg" by blast
    then have "dRange dg \<in> dRange ` set S" by (metis imageI)
    then have "dRange dg \<in> dom ?g" using dom by simp
    then have "[dRange dg \<mapsto> dg] ++ ?g = ?g"
      by (auto simp: fun_eq_iff map_add_def split: option.splits)
    then have "ran (add_loop (dg # S) Map.empty) = ran ?g" using eq by simp
    then show ?thesis using True Cons.IH by simp
  next
    case False
    then have "dom [dRange dg \<mapsto> dg] \<inter> dom ?g = {}" using dom by auto
    then have "ran ([dRange dg \<mapsto> dg] ++ ?g) = ran [dRange dg \<mapsto> dg] \<union> ran ?g"
      by (rule ran_map_add)
    then have "ran (add_loop (dg # S) Map.empty) = insert dg (ran ?g)" using eq by simp
    then show ?thesis using False Cons.IH by simp
  qed
qed

lemma Notify_after_Reset_Add:
  "fst (Notify (AddDiagnostics (Reset d f) f S) f)
     = (AddDiagnostics (Reset d f) f S)\<lparr>client := (client d)\<lparr>published := published (client d) @
          [\<lparr>pURI = hURI f, Diagnostics = set (dedup_last S)\<rparr>]\<rparr>\<rparr>"
  by (simp add: Notify_def AddDiagnostics_def Reset_def PublishDiagnostics_def Let_def ran_add_loop)

text \<open>
  Claim C5. For every URI and every two diagnostic lists \<open>S1\<close> and \<open>S2\<close>, the sequence
  \<^verbatim>\<open>Reset; Add(S1); Notify; Reset; Add(S2); Notify\<close> sends the client two notifications
  for that URI; the last one carries exactly \<open>S2\<close>, deduplicated by range with the last
  write winning, and nothing of \<open>S1\<close>. This holds from any state of the sink and whatever
  the client answers.
\<close>

theorem diagnostic_replacement:
  "published (client (replace_sequence d f S1 S2))
     = published (client d) @
         [\<lparr>pURI = hURI f, Diagnostics = set (dedup_last S1)\<rparr>,
          \<lparr>pURI = hURI f, Diagnostics = set (dedup_last S2)\<rparr>]"
proof -
  let ?d3 = "fst (Notify (AddDiagnostics (Reset d f) f S1) f)"
  have p3: "published (client ?d3)
      = published (client d) @ [\<lparr>pURI = hURI f, Diagnostics = set (dedup_last S1)\<rparr>]"
    by (simp add: Notify_after_Reset_Add)
  have "published (client (fst (Notify (AddDiagnostics (Reset ?d3 f) f S2) f)))
      = published (client ?d3) @ [\<lparr>pURI = hURI f, Diagnostics = set (dedup_last S2)\<rparr>]"
    by (subst Notify_after_Reset_Add) simp
  then show ?thesis using p3 by (simp add: replace_sequence_def Let_def)
qed

theorem diagnostic_replacement_witness:
  "published (client (replace_sequence example_sink example_handle
      [example_diag 1 ''one''] [example_diag 1 ''two'', example_diag 2 ''three'', example_diag 1 ''four'']))
     = [\<lparr>pURI = ''file:///w/a.proto'', Diagnostics = {example_diag 1 ''one''}\<rparr>,
        \<lparr>pURI = ''file:///w/a.proto'', Diagnostics = {example_diag 2 ''three'', example_diag 1 ''four''}\<rparr>]"
  using diagnostic_replacement [of example_sink example_handle
      "[example_diag 1 ''one'']" "[example_diag 1 ''two'', example_diag 2 ''three'', example_diag 1 ''four'']"]
  by (simp add: example_sink_def example_handle_def example_diag_def)

section \<open>Semantic-token encoding: decoding recovers the tokens\<close>

text \<open>
  On a sorted list no subtraction of the encoder wraps around, so the deltas read as
  naturals are the true differences. The loop invariant: decoding what the loop emits
  from index \<open>j > 0\<close> on, starting from the previous token, yields the remaining tokens.
\<close>

lemma decode_rest_encode_loop:
  "0 < j \<Longrightarrow> sorted_wrt token_le (last_tok # toks) \<Longrightarrow>
   decode_rest (unat (Line last_tok)) (unat (Start last_tok)) (map unat (encode_loop j last_tok toks))
     = map token_tuple toks"
proof (induction toks arbitrary: j last_tok)
  case Nil
  then show ?case by simp
next
  case (Cons item toks)
  have le: "token_le last_tok item" using Cons.prems(2) by simp
  have srt: "sorted_wrt token_le (item # toks)" using Cons.prems(2) by simp
  have IH: "decode_rest (unat (Line item)) (unat (Start item)) (map unat (encode_loop (j + 5) item toks))
     = map token_tuple toks"
    by (rule Cons.IH) (use srt in simp_all)
  show ?case
  proof (cases "Line item = Line last_tok")
    case True
    then have "Start last_tok \<le> Start item" using le by (auto simp: token_le_def)
    then have "unat (Start item - Start last_tok) = unat (Start item) - unat (Start last_tok)"
      by (simp add: unat_sub)
    moreover have "unat (Start last_tok) \<le> unat (Start item)"
      using \<open>Start last_tok \<le> Start item\<close> by (simp add: word_le_nat_alt)
    ultimately show ?thesis using True Cons.prems(1) IH
      by (simp add: Let_def token_tuple_def)
  next
    case False
    then have lt: "Line last_tok < Line item" using le by (auto simp: token_le_def)
    then have "unat (Line item - Line last_tok) = unat (Line item) - unat (Line last_tok)"
      by (simp add: unat_sub)
    moreover have "unat (Line last_tok) < unat (Line item)"
      using lt by (simp add: word_less_nat_alt)
    moreover have "Line item - Line last_tok \<noteq> 0" using False by simp
    ultimately show ?thesis using Cons.prems(1) IH
      by (simp add: Let_def token_tuple_def unat_eq_0)
  qed
qed

text \<open>
  Claim C6. For every list of semantic tokens sorted ascending by (line, start), decoding
  the five-integers-per-token output of \<^verbatim>\<open>EncodeSemanticTokens\<close> (first token absolute,
  later tokens with a line delta, and a start delta only when the line delta is zero)
  gives back the (line, start, length, type, modifier bitset) tuples of the tokens, in
  the same order.
\<close>

theorem encode_decode_roundtrip:
  "sorted_tokens toks \<Longrightarrow>
   DecodeSemanticTokens (map unat (EncodeSemanticTokens toks)) = map token_tuple toks"
proof (cases toks)
  case Nil
  then show ?thesis by (simp add: EncodeSemanticTokens_def)
next
  case (Cons item rest)
  assume "sorted_tokens toks"
  then have "sorted_wrt token_le (item # rest)" by (simp add: Cons sorted_tokens_def)
  then have "decode_rest (unat (Line item)) (unat (Start item)) (map unat (encode_loop 5 item rest))
     = map token_tuple rest"
    by (intro decode_rest_encode_loop) simp_all
  then show ?thesis by (simp add: Cons EncodeSemanticTokens_def token_tuple_def)
qed

theorem encode_decode_roundtrip_witness:
  "sorted_tokens example_tokens \<and>
   DecodeSemanticTokens (map unat (EncodeSemanticTokens example_tokens))
     = [(0, 0, 7, 10, 0), (0, 8, 3, 3, 1), (2, 4, 6, 14, 3)]"
proof -
  have s: "sorted_tokens example_tokens"
    by (simp add: sorted_tokens_def example_tokens_def token_le_def)
  show ?thesis
    using s encode_decode_roundtrip [OF s]
    by (simp add: example_tokens_def token_tuple_def Value_def)
qed

section \<open>Opening an overlay\<close>

text \<open>An overlay without URI is refused, and nothing is stored.\<close>

lemma Open_empty_uri:
  "ouri ov = [] \<Longrightarrow> OverlayFS_Open H ofs ov = Inl (Error ''empty DocumentURI'')"
  by (simp add: OverlayFS_Open_def)

text \<open>A document URI is refused when \<^verbatim>\<open>filepath.Rel\<close> fails on the root and its file name.\<close>

lemma Open_Rel_fails:
  "ouri ov \<noteq> [] \<Longrightarrow> IsDocumentURI H (ouri ov) = Inr True \<Longrightarrow> Filename H (ouri ov) = Inr name \<Longrightarrow>
   Rel (fs_root ofs) name = None \<Longrightarrow>
   OverlayFS_Open H ofs ov = Inl (Error ''overlay fs not include this file'')"
  by (simp add: OverlayFS_Open_def)

lemma IsDocumentURI_other: "IsDocumentURI posix_host ''file:///other/a.proto'' = Inr True"
  by code_simp

lemma Filename_other: "Filename posix_host ''file:///other/a.proto'' = Inr ''/other/a.proto''"
  by code_simp

text \<open>
  \<^verbatim>\<open>filepath.Rel\<close> does not fail on a file outside of the root: it answers with a path
  that climbs out of the root.
\<close>

lemma Rel_w_other: "Rel ''/w'' ''/other/a.proto'' = Some ''../other/a.proto''"
  by code_simp

subsection \<open>The check against the root\<close>

lemma split_loop_no_sep:
  "no_sep acc \<Longrightarrow> list_all no_sep (split_loop s acc)"
  by (induction s arbitrary: acc) (simp_all add: no_sep_def)

lemma split_loop_element:
  "no_sep e \<Longrightarrow> split_loop (e @ rest) acc = split_loop rest (rev e @ acc)"
  by (induction e arbitrary: acc) (auto simp: no_sep_def)

lemma Split_join_sep:
  "list_all no_sep es \<Longrightarrow> es \<noteq> [] \<Longrightarrow> Split (join_sep es) = es"
proof (induction es rule: join_sep.induct)
  case 1
  then show ?case by simp
next
  case (2 e)
  then show ?case using split_loop_element [of e "[]" "[]"] by (simp add: Split_def)
next
  case (3 e v va)
  have "split_loop (e @ ''/'' @ join_sep (v # va)) [] = split_loop (''/'' @ join_sep (v # va)) (rev e)"
    using 3(2) split_loop_element [of e "''/'' @ join_sep (v # va)" "[]"] by simp
  also have "\<dots> = e # split_loop (join_sep (v # va)) []" by simp
  also have "split_loop (join_sep (v # va)) [] = v # va"
    using 3 by (simp add: Split_def)
  finally show ?case by (simp add: Split_def)
qed

lemma clean_elems_rooted:
  "''..'' \<notin> set out \<Longrightarrow> ''..'' \<notin> set (clean_elems True es out)"
proof (induction es arbitrary: out)
  case Nil
  then show ?case by simp
next
  case (Cons e es)
  show ?case
  proof (cases out)
    case Nil
    then show ?thesis using Cons.IH [of "[]"] Cons.IH [of "[e]"] by simp
  next
    case (Cons x xs)
    then have "''..'' \<notin> set xs" "x \<noteq> ''..''" using Cons.prems by auto
    then show ?thesis
      using Cons Cons.prems Cons.IH [of out] Cons.IH [of xs] Cons.IH [of "e # out"] by simp
  qed
qed

lemma clean_elems_no_sep:
  "list_all no_sep es \<Longrightarrow> list_all no_sep out \<Longrightarrow> list_all no_sep (clean_elems r es out)"
proof (induction es arbitrary: out)
  case Nil
  then show ?case by simp
next
  case (Cons e es)
  have dd: "no_sep ''..''" by (simp add: no_sep_def)
  show ?case
  proof (cases out)
    case Nil
    then show ?thesis
      using Cons.prems dd Cons.IH [of "[]"] Cons.IH [of "[e]"] Cons.IH [of "[''..'']"]
      by (cases r) auto
  next
    case (Cons x xs)
    then show ?thesis
      using Cons.prems dd Cons.IH [of out] Cons.IH [of xs] Cons.IH [of "e # out"]
        Cons.IH [of "''..'' # out"]
      by (cases r) auto
  qed
qed

lemma strip_common_subset:
  "strip_common bs ts = (rb, rt) \<Longrightarrow> set rb \<subseteq> set bs"
  by (induction bs ts rule: strip_common.induct) (auto split: if_splits)

text \<open>A cleaned absolute path is absolute and has no \<^verbatim>\<open>..\<close> element.\<close>

lemma Clean_abs:
  assumes "IsAbs p"
  shows "IsAbs (Clean p) \<and> Clean p \<noteq> ''.'' \<and> ''..'' \<notin> set (path_elems (Clean p))"
proof -
  from assms have ne: "p \<noteq> []" by (auto simp: IsAbs_def HasPrefix_def)
  let ?es = "clean_elems True (Split p) []"
  have C: "Clean p = ''/'' @ join_sep ?es"
    using assms ne by (simp add: Clean_def)
  have nosep: "list_all no_sep ?es"
    by (rule clean_elems_no_sep) (simp_all add: Split_def split_loop_no_sep no_sep_def)
  have nodd: "''..'' \<notin> set ?es"
    by (rule clean_elems_rooted) simp
  have "set (path_elems (Clean p)) \<subseteq> set ?es"
  proof (cases "?es = []")
    case True
    then show ?thesis by (simp add: C path_elems_def Split_def)
  next
    case False
    have "Split (''/'' @ join_sep ?es) = [] # Split (join_sep ?es)"
      by (simp add: Split_def)
    then show ?thesis using Split_join_sep [OF nosep False]
      by (auto simp: C path_elems_def)
  qed
  then show ?thesis using nodd C by (auto simp: IsAbs_def HasPrefix_def)
qed

text \<open>\<^verbatim>\<open>filepath.Rel\<close> never fails between two absolute paths.\<close>

lemma Rel_abs:
  assumes "IsAbs base" "IsAbs targ"
  shows "Rel base targ \<noteq> None"
proof -
  note b = Clean_abs [OF assms(1)] and t = Clean_abs [OF assms(2)]
  obtain rb rt where s: "strip_common (path_elems (Clean base)) (path_elems (Clean targ)) = (rb, rt)"
    by (cases "strip_common (path_elems (Clean base)) (path_elems (Clean targ))") auto
  have "rb \<noteq> [] \<Longrightarrow> hd rb \<noteq> ''..''"
    using strip_common_subset [OF s] b by (metis hd_in_set subsetD)
  then show ?thesis
    using b t s by (auto simp: Rel_def Let_def)
qed

text \<open>
  So the check on the root refuses nothing when the root is absolute: every overlay with
  a document URI is accepted and stored, wherever its file lies.
\<close>

lemma Open_document_URI_accepted:
  assumes "IsAbs (fs_root ofs)" "ouri ov \<noteq> []" "IsDocumentURI H (ouri ov) = Inr True"
  shows "\<exists>ofs' oo. OverlayFS_Open H ofs ov = Inr (ofs', oo) \<and> overlays ofs' (ouri ov) = Some oo"
proof -
  from assms(3) obtain name where n: "Filename H (ouri ov) = Inr name" "IsAbs name"
    by (auto simp: IsDocumentURI_def split: if_splits sum.splits)
  from Rel_abs [OF assms(1) n(2)] obtain rel where r: "Rel (fs_root ofs) name = Some rel"
    by auto
  have c: "checkURI H ofs (ouri ov) = Inr (ouri ov)"
    using assms(3) by (simp add: checkURI_def)
  show ?thesis
    using assms(2,3) n r c
    by (cases "overlays ofs (ouri ov)") (simp_all add: OverlayFS_Open_def Let_def)
qed

text \<open>
  Claim C7 says that \<^verbatim>\<open>OverlayFS.Open\<close> returns an error for an empty URI and for a
  document URI whose local path does not lie under the root, and leaves the overlay map
  unchanged in both cases. The second part fails: an \<^verbatim>\<open>OverlayFS\<close> rooted at \<^verbatim>\<open>/w\<close>,
  with any delegate and no overlay, accepts the overlay of \<^verbatim>\<open>file:///other/a.proto\<close>
  and stores it.
\<close>

theorem Open_accepts_file_outside_root:
  "OverlayFS_Open posix_host (OverlayFS ''/w'' d Map.empty) (NewOverlay ''file:///other/a.proto'' ''B'' 1)
     = Inr (OverlayFS ''/w'' d [''file:///other/a.proto'' \<mapsto> example_overlay ''file:///other/a.proto'' ''B'' 1],
            example_overlay ''file:///other/a.proto'' ''B'' 1)"
  by (simp add: OverlayFS_Open_def NewOverlay_def checkURI_def IsDocumentURI_other Filename_other
      Rel_w_other example_overlay_def Let_def)

section \<open>Nearest node: smallest span, first visited\<close>

lemma span_less_irrefl: "\<not> span_less a a"
  by (simp add: span_less_def)








text \<open>On the example the field name, the third node, is the answer: it ties with the fourth on both spans.\<close>

lemma Nearest_example:
  "map node_id (NodesAt example_file example_position) = [0, 1, 2, 3] \<and>
   map_option node_id (Nearest example_file example_position) = Some 2"
  by code_simp

section \<open>URI normalization applied twice\<close>

lemma HasPrefix_iff: "HasPrefix s p \<longleftrightarrow> (\<exists>t. s = p @ t)"
  unfolding HasPrefix_def by (metis append_eq_conv_conj append_take_drop_id)

lemma PathUnescape_no_percent: "CHR ''%'' \<notin> set s \<Longrightarrow> PathUnescape s = Some s"
  by (induction s) auto

lemma PathUnescape_append:
  "CHR ''%'' \<notin> set a \<Longrightarrow> PathUnescape (a @ b) = map_option (\<lambda>t. a @ t) (PathUnescape b)"
  by (induction a; cases "PathUnescape b") auto

lemma hex_digits: "list_all (\<lambda>n. ishex (upperhex n) \<and> unhex (upperhex n) = n) [0..<16]"
  by code_simp

lemma hex_digit: "n < 16 \<Longrightarrow> ishex (upperhex n) \<and> unhex (upperhex n) = n"
  using hex_digits unfolding list_all_iff by simp

lemma shouldEscape_percent: "\<not> shouldEscape c \<Longrightarrow> c \<noteq> CHR ''%''"
  by (auto simp: shouldEscape_def)

text \<open>Decoding what \<^verbatim>\<open>escape\<close> wrote gives the path back.\<close>

lemma PathUnescape_escape: "PathUnescape (escape s) = Some s"
proof (induction s)
  case Nil
  then show ?case by simp
next
  case (Cons c s)
  show ?case
  proof (cases "shouldEscape c")
    case True
    have lt: "(of_char c :: nat) < 256" by simp
    then have "(of_char c :: nat) div 16 < 16" "(of_char c :: nat) mod 16 < 16"
      by (simp_all add: div_less_iff_less_mult)
    then have "ishex (upperhex (of_char c div 16))" "unhex (upperhex (of_char c div 16)) = of_char c div 16"
      "ishex (upperhex (of_char c mod 16))" "unhex (upperhex (of_char c mod 16)) = of_char c mod 16"
      using hex_digit by blast+
    moreover have "char_of (16 * (of_char c div 16) + of_char c mod 16 :: nat) = c"
      by simp
    ultimately show ?thesis using True Cons.IH by simp
  next
    case False
    then show ?thesis using Cons.IH shouldEscape_percent by auto
  qed
qed

text \<open>An absolute path gets the scheme in front: the escaping of the URL is undone by \<^verbatim>\<open>uri.New\<close>.\<close>

lemma NormalURIStr_abs:
  assumes "IsAbs s"
  shows "NormalURIStr H s = ''file://'' @ s"
proof -
  obtain t where s: "s = ''/'' @ t" using assms by (auto simp: IsAbs_def HasPrefix_iff)
  have nf: "\<not> HasPrefix s FileScheme"
    by (simp add: s HasPrefix_iff FileScheme_def)
  have u: "file_URL_String s = ''file://'' @ escape s"
    by (simp add: s file_URL_String_def)
  have "PathUnescape (''file://'' @ escape s) = Some (''file://'' @ s)"
    by (subst PathUnescape_append) (simp_all add: PathUnescape_escape)
  then have "New H (''file://'' @ escape s) = ''file://'' @ s"
    by (simp add: New_def FileScheme_def HasPrefix_iff)
  then show ?thesis using nf assms u by (simp add: NormalURIStr_def)
qed

lemma NormalURIStr_file_url:
  assumes "HasPrefix s ''file://''" "CHR ''%'' \<notin> set s"
  shows "NormalURIStr H s = s"
proof -
  obtain t where s: "s = ''file://'' @ t" using assms(1) by (auto simp: HasPrefix_iff)
  have "s = ''file'' @ (''://'' @ t)" by (simp add: s)
  then have "HasPrefix s FileScheme"
    unfolding HasPrefix_iff FileScheme_def by blast
  moreover have "PathUnescape s = Some s"
    using assms(2) by (rule PathUnescape_no_percent)
  then have "New H s = s"
    using assms(1) by (simp add: New_def FileScheme_def)
  ultimately show ?thesis by (simp add: NormalURIStr_def)
qed

text \<open>
  Claim C9 says that normalizing twice is normalizing once, for every string. It fails
  on a string with a percent escape, since \<^verbatim>\<open>uri.New\<close> decodes once per call:
  \<^verbatim>\<open>file:///a%2520b\<close> becomes \<^verbatim>\<open>file:///a%20b\<close> and then \<^verbatim>\<open>file:///a b\<close>.
\<close>

theorem NormalURIStr_not_idempotent:
  "NormalURIStr posix_host (NormalURIStr posix_host ''file:///a%2520b'')
     \<noteq> NormalURIStr posix_host ''file:///a%2520b''"
  by code_simp

text \<open>
  It also fails on a relative path that begins with \<^verbatim>\<open>file\<close>, which is taken for a
  file URI: \<^verbatim>\<open>file x.proto\<close> becomes an escaped URL under the working directory, and
  the second call decodes it.
\<close>

lemma NormalURIStr_file_prefix_not_idempotent:
  "NormalURIStr posix_host (NormalURIStr posix_host ''file x.proto'')
     \<noteq> NormalURIStr posix_host ''file x.proto''"
  by code_simp

text \<open>
  Claim C9, amended. For every string without a percent sign that does not begin with
  \<^verbatim>\<open>file\<close>, or begins with \<^verbatim>\<open>file://\<close>, normalizing twice is normalizing once, on
  every host.
\<close>

theorem NormalURIStr_idempotent:
  assumes "CHR ''%'' \<notin> set s" "HasPrefix s ''file'' \<longrightarrow> HasPrefix s ''file://''"
  shows "NormalURIStr H (NormalURIStr H s) = NormalURIStr H s"
proof (cases "HasPrefix s ''file''")
  case True
  then have "NormalURIStr H s = s" using assms NormalURIStr_file_url by blast
  then show ?thesis by simp
next
  case False
  show ?thesis
  proof (cases "IsAbs s")
    case True
    then have n: "NormalURIStr H s = ''file://'' @ s" by (rule NormalURIStr_abs)
    have "HasPrefix (''file://'' @ s) ''file://''" unfolding HasPrefix_iff by blast
    moreover have "CHR ''%'' \<notin> set (''file://'' @ s)" using assms(1) by simp
    ultimately have "NormalURIStr H (''file://'' @ s) = ''file://'' @ s"
      by (rule NormalURIStr_file_url)
    then show ?thesis using n by simp
  next
    case False
    then have "NormalURIStr H s = s" using \<open>\<not> HasPrefix s ''file''\<close>
      by (simp add: NormalURIStr_def FileScheme_def)
    then show ?thesis by simp
  qed
qed

theorem NormalURIStr_idempotent_witness:
  "CHR ''%'' \<notin> set ''/w/a b.proto'' \<and> \<not> HasPrefix ''/w/a b.proto'' ''file'' \<and>
   NormalURIStr posix_host (NormalURIStr posix_host ''/w/a b.proto'') = ''file:///w/a b.proto'' \<and>
   NormalURIStr posix_host ''/w/a b.proto'' = ''file:///w/a b.proto''"
proof -
  have p: "CHR ''%'' \<notin> set ''/w/a b.proto''" by simp
  have f: "\<not> HasPrefix ''/w/a b.proto'' ''file''" by (simp add: HasPrefix_def)
  have n: "NormalURIStr posix_host ''/w/a b.proto'' = ''file:///w/a b.proto''"
    by (simp add: NormalURIStr_abs IsAbs_def HasPrefix_def)
  show ?thesis
    using p f n NormalURIStr_idempotent [of "''/w/a b.proto''" posix_host] by simp
qed

section \<open>A change notification without changes\<close>

text \<open>
  Claim C10. For every \<^verbatim>\<open>DidChange\<close> request whose list of content changes is empty,
  the handler returns without error and leaves the state as it was: the overlays, the
  parser cache, the diagnostic sink and what the client has been sent. It returns
  whatever the bound on the import depth is, since it stops before any file is read.
\<close>

theorem DidChange_no_changes:
  "ContentChanges params = [] \<Longrightarrow> DidChange n E fm params = Some (fm, None)"
  by (simp add: DidChange_def)

theorem DidChange_no_changes_witness:
  "ContentChanges \<lparr>cURI = ''file:///w/a.proto'', cVersion = 2, ContentChanges = []\<rparr> = [] \<and>
   DidChange 0 example_env (example_manager Map.empty)
     \<lparr>cURI = ''file:///w/a.proto'', cVersion = 2, ContentChanges = []\<rparr>
     = Some (example_manager Map.empty, None)"
  using DidChange_no_changes [of "\<lparr>cURI = ''file:///w/a.proto'', cVersion = 2, ContentChanges = []\<rparr>"
      0 example_env "example_manager Map.empty"]
  by simp

end
